theory Spec2Isabelle
  imports Main "HOL-Library.Word"
begin

section \<open>The gRPC trajectory builder stub\<close>

text \<open>
  A shallow embedding of \<^verbatim>\<open>cartographer_grpc/mapping/trajectory_builder_stub.cc\<close>.

  The class talks to a remote service through a gRPC channel.  The channel, the generated
  service stub and the stream objects are not part of the file; they are modelled as a
  record of answers (\<open>channel\<close>), one answer for every call the file makes on them.
  The answers to calls made by the owning thread may depend on everything that thread has
  done on the transport so far, so they take the trace of earlier calls as an argument.
  Every call on the transport is recorded, with its answer, in a trace kept in the
  object's state; the reader thread keeps a log of its own.

  \<^item> A \<^verbatim>\<open>std::unique_ptr\<close> is an \<open>option\<close>: \<open>None\<close> is the null pointer.
  \<^item> \<^verbatim>\<open>CHECK(c)\<close> of glog ends the process when \<open>c\<close> is false: the operation
    then yields \<open>Inl (CHECK_failed tr)\<close>, \<open>tr\<close> being the trace up to the failed check.
  \<^item> \<^verbatim>\<open>int\<close> and the protobuf \<^verbatim>\<open>int32\<close> are \<open>32 word\<close>, \<^verbatim>\<open>int64\<close> is \<open>64 word\<close>.
  \<^item> The sensor samples, the protobuf payloads and the conversions between them
    (\<^verbatim>\<open>ToProto\<close>, \<^verbatim>\<open>FromProto\<close>, \<^verbatim>\<open>ToRigid3\<close>, \<^verbatim>\<open>FromUniversal\<close>) are
    defined elsewhere; the samples and decoded values are the type \<open>'d\<close>, the protobuf
    payloads the type \<open>'p\<close>, and the conversions are parameters (\<open>conversions\<close>).
  \<^item> The result callback is an opaque value of type \<open>'cb\<close>; invoking it is an entry
    of the reader's log that records the callback and the five arguments.
\<close>

subsection \<open>Data\<close>

type_synonym handle = nat

datatype sensor_kind = Rangefinder | Imu | Odometry | FixedFramePose

text \<open>\<^verbatim>\<open>proto::SensorMetadata\<close>\<close>

record SensorMetadata =
  md_sensor_id :: string
  md_trajectory_id :: "32 word"

text \<open>The four request messages; each carries the metadata and one encoded sample.\<close>

datatype 'p request =
    AddRangefinderDataRequest SensorMetadata 'p
  | AddImuDataRequest SensorMetadata 'p
  | AddOdometryDataRequest SensorMetadata 'p
  | AddFixedFramePoseDataRequest SensorMetadata 'p

text \<open>\<^verbatim>\<open>proto::NodeId\<close> and \<^verbatim>\<open>cartographer::mapping::NodeId\<close>\<close>

record proto_NodeId =
  pn_trajectory_id :: "32 word"
  pn_node_index :: "32 word"

datatype NodeId = NodeId (nid_trajectory_id: "32 word") (nid_node_index: "32 word")

text \<open>\<^verbatim>\<open>proto::ReceiveLocalSlamResultsResponse\<close>, read through its accessors.\<close>

record 'p ReceiveLocalSlamResultsResponse =
  resp_trajectory_id :: "32 word"
  resp_timestamp :: "64 word"
  resp_local_pose :: 'p
  resp_range_data :: 'p
  resp_has_node_id :: bool
  resp_node_id :: proto_NodeId

text \<open>Calls of the owning thread on the transport, each with its answer.\<close>

datatype 'p event =
    EvNewStub "handle option"
  | EvReceiveLocalSlamResults "32 word" handle
  | EvThreadStart
  | EvThreadJoin
  | EvOpenWriter sensor_kind "handle option"
  | EvWrite sensor_kind handle "'p request" bool
  | EvWritesDone sensor_kind handle bool
  | EvFinish sensor_kind handle bool

text \<open>What the reader thread does: reads, callback invocations, the final \<^verbatim>\<open>Finish\<close>.\<close>

datatype ('d, 'p, 'cb) reader_event =
    RdRead handle "'p ReceiveLocalSlamResultsResponse option"
  | RdCallback 'cb "32 word" 'd 'd 'd "NodeId option"
  | RdFinish handle bool

text \<open>
  The transport.  \<open>reader_Read ch i\<close> is the outcome of the \<open>i\<close>-th call (from 0) of
  \<^verbatim>\<open>Read\<close> on the inbound stream: \<open>Some m\<close> when it returns true and delivers \<open>m\<close>,
  \<open>None\<close> when it returns false.  \<open>reader_Finish\<close> is whether the status of the inbound
  stream is OK.  \<^verbatim>\<open>ReceiveLocalSlamResults\<close> yields a reader that the source uses without
  a test.
\<close>

record 'p channel =
  NewStub :: "handle option"
  ReceiveLocalSlamResults :: "32 word \<Rightarrow> handle"
  reader_Read :: "nat \<Rightarrow> 'p ReceiveLocalSlamResultsResponse option"
  reader_Finish :: bool
  open_writer :: "sensor_kind \<Rightarrow> 'p event list \<Rightarrow> handle option"
  writer_Write :: "sensor_kind \<Rightarrow> 'p event list \<Rightarrow> 'p request \<Rightarrow> bool"
  writer_WritesDone :: "sensor_kind \<Rightarrow> 'p event list \<Rightarrow> bool"
  writer_Finish :: "sensor_kind \<Rightarrow> 'p event list \<Rightarrow> bool"

record ('d, 'p) conversions =
  ToProto_TimedPointCloudData :: "'d \<Rightarrow> 'p"
  ToProto_ImuData :: "'d \<Rightarrow> 'p"
  ToProto_OdometryData :: "'d \<Rightarrow> 'p"
  ToProto_FixedFramePoseData :: "'d \<Rightarrow> 'p"
  FromUniversal :: "64 word \<Rightarrow> 'd"
  ToRigid3 :: "'p \<Rightarrow> 'd"
  FromProto_RangeData :: "'p \<Rightarrow> 'd"

text \<open>
  An operation that does not return: a failed \<^verbatim>\<open>CHECK\<close>, or a \<^verbatim>\<open>join\<close> on a thread
  that never ends.  Both carry the trace up to that point.
\<close>

datatype 'p no_return = CHECK_failed "'p event list" | Join_blocks "'p event list"

text \<open>
  The object.  \<open>reader_thread\<close> is \<^verbatim>\<open>local_slam_result_reader_.thread\<close>: \<open>None\<close> when no
  thread was made, \<open>Some r\<close> for a thread whose body runs as \<open>r\<close> says: \<open>r = None\<close> when the
  body never returns, \<open>r = Some log\<close> when it returns having done \<open>log\<close>.
\<close>

record ('d, 'p, 'cb) TrajectoryBuilderStub =
  this_client_channel :: "'p channel"
  this_trajectory_id :: "32 word"
  this_stub :: handle
  rangefinder_writer :: "handle option"
  imu_writer :: "handle option"
  odometry_writer :: "handle option"
  fixed_frame_writer :: "handle option"
  reader_client_reader :: "handle option"
  reader_thread :: "('d, 'p, 'cb) reader_event list option option"
  trace :: "'p event list"

subsection \<open>The reader thread\<close>

text \<open>
  The loop of \<^verbatim>\<open>RunLocalSlamResultReader\<close>, from the \<open>i\<close>-th read on.  It runs for as
  long as \<^verbatim>\<open>Read\<close> returns true, so it need not end: \<open>None\<close> is the run that never ends.
\<close>

partial_function (option) read_loop ::
  "('d, 'p) conversions \<Rightarrow> 'p channel \<Rightarrow> handle \<Rightarrow> 'cb \<Rightarrow> nat \<Rightarrow>
   ('d, 'p, 'cb) reader_event list \<Rightarrow> ('d, 'p, 'cb) reader_event list option" where
  "read_loop cv ch client_reader local_slam_result_callback i log =
     (case reader_Read ch i of
        None \<Rightarrow> Some (log @ [RdRead client_reader None])
      | Some response \<Rightarrow>
          (let trajectory_id = resp_trajectory_id response;
               time = FromUniversal cv (resp_timestamp response);
               local_pose = ToRigid3 cv (resp_local_pose response);
               range_data = FromProto_RangeData cv (resp_range_data response);
               node_id = (if resp_has_node_id response
                          then Some (NodeId (pn_trajectory_id (resp_node_id response))
                                            (pn_node_index (resp_node_id response)))
                          else None)
           in read_loop cv ch client_reader local_slam_result_callback (Suc i)
                (log @ [RdRead client_reader (Some response),
                        RdCallback local_slam_result_callback trajectory_id time local_pose
                          range_data node_id])))"

definition RunLocalSlamResultReader ::
  "('d, 'p) conversions \<Rightarrow> 'p channel \<Rightarrow> handle \<Rightarrow> 'cb \<Rightarrow>
   ('d, 'p, 'cb) reader_event list option" where
  "RunLocalSlamResultReader cv ch client_reader local_slam_result_callback =
     (case read_loop cv ch client_reader local_slam_result_callback 0 [] of
        None \<Rightarrow> None
      | Some log \<Rightarrow> Some (log @ [RdFinish client_reader (reader_Finish ch)]))"

subsection \<open>Construction\<close>

definition TrajectoryBuilderStub_ctor ::
  "('d, 'p) conversions \<Rightarrow> 'p channel \<Rightarrow> 32 word \<Rightarrow> 'cb option \<Rightarrow>
   'p no_return + ('d, 'p, 'cb) TrajectoryBuilderStub" where
  "TrajectoryBuilderStub_ctor cv client_channel trajectory_id local_slam_result_callback =
     (case NewStub client_channel of
        None \<Rightarrow> Inl (CHECK_failed [EvNewStub None])
      | Some st \<Rightarrow>
          (let s = \<lparr> this_client_channel = client_channel, this_trajectory_id = trajectory_id,
                     this_stub = st, rangefinder_writer = None, imu_writer = None,
                     odometry_writer = None, fixed_frame_writer = None,
                     reader_client_reader = None, reader_thread = None,
                     trace = [EvNewStub (Some st)] \<rparr>
           in case local_slam_result_callback of
                None \<Rightarrow> Inr s
              | Some cb \<Rightarrow>
                  (let r = ReceiveLocalSlamResults client_channel trajectory_id
                   in Inr (s\<lparr> reader_client_reader := Some r,
                              reader_thread :=
                                Some (RunLocalSlamResultReader cv client_channel r cb),
                              trace := trace s @
                                [EvReceiveLocalSlamResults trajectory_id r, EvThreadStart] \<rparr>))))"

subsection \<open>Submitting sensor data\<close>

definition CreateSensorMetadata ::
  "('d, 'p, 'cb) TrajectoryBuilderStub \<Rightarrow> string \<Rightarrow> SensorMetadata" where
  "CreateSensorMetadata s sensor_id =
     \<lparr> md_sensor_id = sensor_id, md_trajectory_id = this_trajectory_id s \<rparr>"

text \<open>\<^verbatim>\<open>client_writer->Write(request)\<close>: the answer is recorded and not looked at.\<close>

definition Write_request ::
  "sensor_kind \<Rightarrow> handle \<Rightarrow> 'p request \<Rightarrow> ('d, 'p, 'cb) TrajectoryBuilderStub \<Rightarrow>
   ('d, 'p, 'cb) TrajectoryBuilderStub" where
  "Write_request k h request s =
     s\<lparr> trace := trace s @
          [EvWrite k h request (writer_Write (this_client_channel s) k (trace s) request)] \<rparr>"

definition AddSensorData_TimedPointCloudData ::
  "('d, 'p) conversions \<Rightarrow> string \<Rightarrow> 'd \<Rightarrow> ('d, 'p, 'cb) TrajectoryBuilderStub \<Rightarrow>
   'p no_return + ('d, 'p, 'cb) TrajectoryBuilderStub" where
  "AddSensorData_TimedPointCloudData cv sensor_id timed_point_cloud_data s =
     (case (case rangefinder_writer s of
              None \<Rightarrow>
                (case open_writer (this_client_channel s) Rangefinder (trace s) of
                   None \<Rightarrow> Inl (CHECK_failed (trace s @ [EvOpenWriter Rangefinder None]))
                 | Some h \<Rightarrow>
                     Inr (h, s\<lparr> rangefinder_writer := Some h,
                                 trace := trace s @ [EvOpenWriter Rangefinder (Some h)] \<rparr>))
            | Some h \<Rightarrow> Inr (h, s)) of
        Inl f \<Rightarrow> Inl f
      | Inr (h, s1) \<Rightarrow>
          Inr (Write_request Rangefinder h
                 (AddRangefinderDataRequest (CreateSensorMetadata s1 sensor_id)
                    (ToProto_TimedPointCloudData cv timed_point_cloud_data)) s1))"

definition AddSensorData_ImuData ::
  "('d, 'p) conversions \<Rightarrow> string \<Rightarrow> 'd \<Rightarrow> ('d, 'p, 'cb) TrajectoryBuilderStub \<Rightarrow>
   'p no_return + ('d, 'p, 'cb) TrajectoryBuilderStub" where
  "AddSensorData_ImuData cv sensor_id imu_data s =
     (case (case imu_writer s of
              None \<Rightarrow>
                (case open_writer (this_client_channel s) Imu (trace s) of
                   None \<Rightarrow> Inl (CHECK_failed (trace s @ [EvOpenWriter Imu None]))
                 | Some h \<Rightarrow>
                     Inr (h, s\<lparr> imu_writer := Some h,
                                 trace := trace s @ [EvOpenWriter Imu (Some h)] \<rparr>))
            | Some h \<Rightarrow> Inr (h, s)) of
        Inl f \<Rightarrow> Inl f
      | Inr (h, s1) \<Rightarrow>
          Inr (Write_request Imu h
                 (AddImuDataRequest (CreateSensorMetadata s1 sensor_id)
                    (ToProto_ImuData cv imu_data)) s1))"

definition AddSensorData_OdometryData ::
  "('d, 'p) conversions \<Rightarrow> string \<Rightarrow> 'd \<Rightarrow> ('d, 'p, 'cb) TrajectoryBuilderStub \<Rightarrow>
   'p no_return + ('d, 'p, 'cb) TrajectoryBuilderStub" where
  "AddSensorData_OdometryData cv sensor_id odometry_data s =
     (case (case odometry_writer s of
              None \<Rightarrow>
                (case open_writer (this_client_channel s) Odometry (trace s) of
                   None \<Rightarrow> Inl (CHECK_failed (trace s @ [EvOpenWriter Odometry None]))
                 | Some h \<Rightarrow>
                     Inr (h, s\<lparr> odometry_writer := Some h,
                                 trace := trace s @ [EvOpenWriter Odometry (Some h)] \<rparr>))
            | Some h \<Rightarrow> Inr (h, s)) of
        Inl f \<Rightarrow> Inl f
      | Inr (h, s1) \<Rightarrow>
          Inr (Write_request Odometry h
                 (AddOdometryDataRequest (CreateSensorMetadata s1 sensor_id)
                    (ToProto_OdometryData cv odometry_data)) s1))"

definition AddSensorData_FixedFramePoseData ::
  "('d, 'p) conversions \<Rightarrow> string \<Rightarrow> 'd \<Rightarrow> ('d, 'p, 'cb) TrajectoryBuilderStub \<Rightarrow>
   'p no_return + ('d, 'p, 'cb) TrajectoryBuilderStub" where
  "AddSensorData_FixedFramePoseData cv sensor_id fixed_frame_pose s =
     (case (case fixed_frame_writer s of
              None \<Rightarrow>
                (case open_writer (this_client_channel s) FixedFramePose (trace s) of
                   None \<Rightarrow> Inl (CHECK_failed (trace s @ [EvOpenWriter FixedFramePose None]))
                 | Some h \<Rightarrow>
                     Inr (h, s\<lparr> fixed_frame_writer := Some h,
                                 trace := trace s @ [EvOpenWriter FixedFramePose (Some h)] \<rparr>))
            | Some h \<Rightarrow> Inr (h, s)) of
        Inl f \<Rightarrow> Inl f
      | Inr (h, s1) \<Rightarrow>
          Inr (Write_request FixedFramePose h
                 (AddFixedFramePoseDataRequest (CreateSensorMetadata s1 sensor_id)
                    (ToProto_FixedFramePoseData cv fixed_frame_pose)) s1))"

text \<open>
  A call of the overloaded \<^verbatim>\<open>AddSensorData\<close>: the static type of the sample selects the
  overload.
\<close>

datatype 'd sensor_call =
    TimedPointCloudData string 'd
  | ImuData string 'd
  | OdometryData string 'd
  | FixedFramePoseData string 'd

fun AddSensorData ::
  "('d, 'p) conversions \<Rightarrow> 'd sensor_call \<Rightarrow> ('d, 'p, 'cb) TrajectoryBuilderStub \<Rightarrow>
   'p no_return + ('d, 'p, 'cb) TrajectoryBuilderStub" where
  "AddSensorData cv (TimedPointCloudData sensor_id d) s =
     AddSensorData_TimedPointCloudData cv sensor_id d s"
| "AddSensorData cv (ImuData sensor_id d) s = AddSensorData_ImuData cv sensor_id d s"
| "AddSensorData cv (OdometryData sensor_id d) s = AddSensorData_OdometryData cv sensor_id d s"
| "AddSensorData cv (FixedFramePoseData sensor_id d) s =
     AddSensorData_FixedFramePoseData cv sensor_id d s"

text \<open>A sequence of calls; a failed \<^verbatim>\<open>CHECK\<close> ends the process, so the rest is not run.\<close>

fun AddSensorData_seq ::
  "('d, 'p) conversions \<Rightarrow> 'd sensor_call list \<Rightarrow> ('d, 'p, 'cb) TrajectoryBuilderStub \<Rightarrow>
   'p no_return + ('d, 'p, 'cb) TrajectoryBuilderStub" where
  "AddSensorData_seq cv [] s = Inr s"
| "AddSensorData_seq cv (c # cs) s =
     (case AddSensorData cv c s of Inl f \<Rightarrow> Inl f | Inr s' \<Rightarrow> AddSensorData_seq cv cs s')"

subsection \<open>Destruction\<close>

text \<open>
  The block \<^verbatim>\<open>if (w) { CHECK(w->WritesDone()); CHECK(w->Finish().ok()); }\<close>, which the
  destructor has once for each writer.
\<close>

definition finalize_writer ::
  "'p channel \<Rightarrow> sensor_kind \<Rightarrow> handle option \<Rightarrow> 'p event list \<Rightarrow>
   'p no_return + 'p event list" where
  "finalize_writer ch k client_writer tr =
     (case client_writer of
        None \<Rightarrow> Inr tr
      | Some h \<Rightarrow>
          (let done = writer_WritesDone ch k tr;
               tr1 = tr @ [EvWritesDone k h done]
           in if \<not> done then Inl (CHECK_failed tr1)
              else (let ok = writer_Finish ch k tr1;
                        tr2 = tr1 @ [EvFinish k h ok]
                    in if \<not> ok then Inl (CHECK_failed tr2) else Inr tr2)))"

definition TrajectoryBuilderStub_dtor ::
  "('d, 'p, 'cb) TrajectoryBuilderStub \<Rightarrow> 'p no_return + 'p event list" where
  "TrajectoryBuilderStub_dtor s =
     (case (case reader_thread s of
              None \<Rightarrow> Inr (trace s)
            | Some None \<Rightarrow> Inl (Join_blocks (trace s))
            | Some (Some log) \<Rightarrow> Inr (trace s @ [EvThreadJoin])) of
        Inl f \<Rightarrow> Inl f
      | Inr tr0 \<Rightarrow>
     (case finalize_writer (this_client_channel s) Rangefinder (rangefinder_writer s) tr0 of
        Inl f \<Rightarrow> Inl f
      | Inr tr1 \<Rightarrow>
     (case finalize_writer (this_client_channel s) Imu (imu_writer s) tr1 of
        Inl f \<Rightarrow> Inl f
      | Inr tr2 \<Rightarrow>
     (case finalize_writer (this_client_channel s) Odometry (odometry_writer s) tr2 of
        Inl f \<Rightarrow> Inl f
      | Inr tr3 \<Rightarrow>
          finalize_writer (this_client_channel s) FixedFramePose (fixed_frame_writer s) tr3))))"


subsection \<open>Vocabulary of the properties\<close>

fun kind_of :: "'d sensor_call \<Rightarrow> sensor_kind" where
  "kind_of (TimedPointCloudData sensor_id d) = Rangefinder"
| "kind_of (ImuData sensor_id d) = Imu"
| "kind_of (OdometryData sensor_id d) = Odometry"
| "kind_of (FixedFramePoseData sensor_id d) = FixedFramePose"

fun writer_of :: "sensor_kind \<Rightarrow> ('d, 'p, 'cb) TrajectoryBuilderStub \<Rightarrow> handle option" where
  "writer_of Rangefinder s = rangefinder_writer s"
| "writer_of Imu s = imu_writer s"
| "writer_of Odometry s = odometry_writer s"
| "writer_of FixedFramePose s = fixed_frame_writer s"

text \<open>
  The message a call is to send for the trajectory \<open>tid\<close>: the metadata made of the
  caller's sensor identifier and \<open>tid\<close>, and the encoded sample.
\<close>

fun request_of :: "('d, 'p) conversions \<Rightarrow> 32 word \<Rightarrow> 'd sensor_call \<Rightarrow> 'p request" where
  "request_of cv tid (TimedPointCloudData sensor_id d) =
     AddRangefinderDataRequest \<lparr> md_sensor_id = sensor_id, md_trajectory_id = tid \<rparr>
       (ToProto_TimedPointCloudData cv d)"
| "request_of cv tid (ImuData sensor_id d) =
     AddImuDataRequest \<lparr> md_sensor_id = sensor_id, md_trajectory_id = tid \<rparr>
       (ToProto_ImuData cv d)"
| "request_of cv tid (OdometryData sensor_id d) =
     AddOdometryDataRequest \<lparr> md_sensor_id = sensor_id, md_trajectory_id = tid \<rparr>
       (ToProto_OdometryData cv d)"
| "request_of cv tid (FixedFramePoseData sensor_id d) =
     AddFixedFramePoseDataRequest \<lparr> md_sensor_id = sensor_id, md_trajectory_id = tid \<rparr>
       (ToProto_FixedFramePoseData cv d)"

text \<open>The sensor kind an event of the trace concerns, if any.\<close>

fun event_kind :: "'p event \<Rightarrow> sensor_kind option" where
  "event_kind (EvOpenWriter k w) = Some k"
| "event_kind (EvWrite k h rq ok) = Some k"
| "event_kind (EvWritesDone k h ok) = Some k"
| "event_kind (EvFinish k h ok) = Some k"
| "event_kind e = None"



text \<open>The messages written in a trace, in order, each with its kind and stream handle.\<close>

fun written :: "'p event list \<Rightarrow> (sensor_kind \<times> handle \<times> 'p request) list" where
  "written [] = []"
| "written (EvWrite k h rq ok # tr) = (k, h, rq) # written tr"
| "written (e # tr) = written tr"

text \<open>The two calls that finalize an outbound stream, and an acknowledgment that failed.\<close>

fun is_finalize :: "'p event \<Rightarrow> bool" where
  "is_finalize (EvWritesDone k h ok) = True"
| "is_finalize (EvFinish k h ok) = True"
| "is_finalize e = False"

fun failed_ack :: "'p event \<Rightarrow> bool" where
  "failed_ack (EvWritesDone k h ok) = (\<not> ok)"
| "failed_ack (EvFinish k h ok) = (\<not> ok)"
| "failed_ack e = False"

text \<open>The trace at the end of an operation, however it ends.\<close>

fun state_trace ::
  "'p no_return + ('d, 'p, 'cb) TrajectoryBuilderStub \<Rightarrow> 'p event list" where
  "state_trace (Inr s) = trace s"
| "state_trace (Inl (CHECK_failed tr)) = tr"
| "state_trace (Inl (Join_blocks tr)) = tr"

fun final_trace :: "'p no_return + 'p event list \<Rightarrow> 'p event list" where
  "final_trace (Inr tr) = tr"
| "final_trace (Inl (CHECK_failed tr)) = tr"
| "final_trace (Inl (Join_blocks tr)) = tr"

text \<open>What finalizing the open stream of kind \<open>k\<close> adds to the trace when all goes well.\<close>

definition finalized :: "('d, 'p, 'cb) TrajectoryBuilderStub \<Rightarrow> sensor_kind \<Rightarrow> 'p event list" where
  "finalized s k =
     (case writer_of k s of None \<Rightarrow> [] | Some h \<Rightarrow> [EvWritesDone k h True, EvFinish k h True])"

text \<open>
  What the reader does with one inbound message: the read that delivers it, then the
  callback on the decoded fields.
\<close>

definition invocation ::
  "('d, 'p) conversions \<Rightarrow> 'cb \<Rightarrow> 'p ReceiveLocalSlamResultsResponse \<Rightarrow>
   ('d, 'p, 'cb) reader_event" where
  "invocation cv cb m =
     RdCallback cb (resp_trajectory_id m) (FromUniversal cv (resp_timestamp m))
       (ToRigid3 cv (resp_local_pose m)) (FromProto_RangeData cv (resp_range_data m))
       (if resp_has_node_id m
        then Some (NodeId (pn_trajectory_id (resp_node_id m)) (pn_node_index (resp_node_id m)))
        else None)"

fun is_callback :: "('d, 'p, 'cb) reader_event \<Rightarrow> bool" where
  "is_callback (RdCallback cb t time pose rd n) = True"
| "is_callback e = False"

fun is_reader_finish :: "('d, 'p, 'cb) reader_event \<Rightarrow> bool" where
  "is_reader_finish (RdFinish r ok) = True"
| "is_reader_finish e = False"


subsection \<open>A transport to run the operations on\<close>

text \<open>
  Samples, payloads and decoded values are numbers here.  The stub is made; every stream
  opens, with the length of the trace so far as its handle; every write and every
  acknowledgment succeeds; the remote sends three results and closes the inbound stream.
\<close>

definition example_conversions :: "(nat, nat) conversions" where
  "example_conversions =
     \<lparr> ToProto_TimedPointCloudData = (\<lambda>d. d + 100), ToProto_ImuData = (\<lambda>d. d + 200),
       ToProto_OdometryData = (\<lambda>d. d + 300), ToProto_FixedFramePoseData = (\<lambda>d. d + 400),
       FromUniversal = unat, ToRigid3 = (\<lambda>p. p + 1), FromProto_RangeData = (\<lambda>p. p + 2) \<rparr>"

definition example_message ::
  "64 word \<Rightarrow> nat \<Rightarrow> bool \<Rightarrow> nat ReceiveLocalSlamResultsResponse" where
  "example_message t p has =
     \<lparr> resp_trajectory_id = 7, resp_timestamp = t, resp_local_pose = p,
       resp_range_data = p + 50, resp_has_node_id = has,
       resp_node_id = (if has then \<lparr> pn_trajectory_id = 7, pn_node_index = 4 \<rparr>
                       else \<lparr> pn_trajectory_id = 0, pn_node_index = 0 \<rparr>) \<rparr>"

definition example_inbound :: "nat ReceiveLocalSlamResultsResponse list" where
  "example_inbound =
     [example_message 1000 10 False, example_message 2000 20 True,
      example_message 3000 30 False]"

definition example_channel :: "nat channel" where
  "example_channel =
     \<lparr> NewStub = Some 1, ReceiveLocalSlamResults = (\<lambda>tid. 2),
       reader_Read = (\<lambda>i. if i < length example_inbound then Some (example_inbound ! i)
                            else None),
       reader_Finish = True,
       open_writer = (\<lambda>k tr. Some (length tr)),
       writer_Write = (\<lambda>k tr rq. True),
       writer_WritesDone = (\<lambda>k tr. True),
       writer_Finish = (\<lambda>k tr. True) \<rparr>"

text \<open>The object that construction without a callback makes on this transport.\<close>

definition example_stub :: "(nat, nat, string) TrajectoryBuilderStub" where
  "example_stub =
     \<lparr> this_client_channel = example_channel, this_trajectory_id = 7, this_stub = 1,
       rangefinder_writer = None, imu_writer = None, odometry_writer = None,
       fixed_frame_writer = None, reader_client_reader = None, reader_thread = None,
       trace = [EvNewStub (Some 1)] \<rparr>"

definition example_calls :: "nat sensor_call list" where
  "example_calls =
     [TimedPointCloudData ''range'' 1, ImuData ''imu'' 2, TimedPointCloudData ''range'' 3]"

text \<open>The object after \<open>example_calls\<close>.\<close>

definition example_stub_used :: "(nat, nat, string) TrajectoryBuilderStub" where
  "example_stub_used =
     example_stub\<lparr> rangefinder_writer := Some 1, imu_writer := Some 3,
       trace := [EvNewStub (Some 1),
         EvOpenWriter Rangefinder (Some 1),
         EvWrite Rangefinder 1
           (AddRangefinderDataRequest \<lparr> md_sensor_id = ''range'', md_trajectory_id = 7 \<rparr> 101)
           True,
         EvOpenWriter Imu (Some 3),
         EvWrite Imu 3
           (AddImuDataRequest \<lparr> md_sensor_id = ''imu'', md_trajectory_id = 7 \<rparr> 202) True,
         EvWrite Rangefinder 1
           (AddRangefinderDataRequest \<lparr> md_sensor_id = ''range'', md_trajectory_id = 7 \<rparr> 103)
           True] \<rparr>"

text \<open>The writer blocks of the destructor, run one after the other on a list of writers.\<close>

fun finalize_all ::
  "'p channel \<Rightarrow> (sensor_kind \<times> handle option) list \<Rightarrow> 'p event list \<Rightarrow>
   'p no_return + 'p event list" where
  "finalize_all ch [] tr = Inr tr"
| "finalize_all ch ((k, w) # ws) tr =
     (case finalize_writer ch k w tr of Inl f \<Rightarrow> Inl f | Inr tr' \<Rightarrow> finalize_all ch ws tr')"

definition ack_events :: "sensor_kind \<times> handle option \<Rightarrow> 'p event list" where
  "ack_events kw =
     (case snd kw of None \<Rightarrow> [] | Some h \<Rightarrow> [EvWritesDone (fst kw) h True, EvFinish (fst kw) h True])"

text \<open>The trace once the destructor is past the join of the reader thread.\<close>

definition after_join :: "('d, 'p, 'cb) TrajectoryBuilderStub \<Rightarrow> 'p event list" where
  "after_join s = trace s @ (case reader_thread s of None \<Rightarrow> [] | Some th \<Rightarrow> [EvThreadJoin])"

text \<open>What the reader logs for a list of inbound messages, before the stream ends.\<close>

definition deliveries ::
  "('d, 'p) conversions \<Rightarrow> handle \<Rightarrow> 'cb \<Rightarrow> 'p ReceiveLocalSlamResultsResponse list \<Rightarrow>
   ('d, 'p, 'cb) reader_event list" where
  "deliveries cv r cb msgs = concat (map (\<lambda>m. [RdRead r (Some m), invocation cv cb m]) msgs)"

text \<open>
  A whole life of the object: construction, a sequence of calls, destruction.  The result
  is the trace of the owning thread, or the way in which it did not return.
\<close>

definition lifecycle ::
  "('d, 'p) conversions \<Rightarrow> 'p channel \<Rightarrow> 32 word \<Rightarrow> 'cb option \<Rightarrow> 'd sensor_call list \<Rightarrow>
   'p no_return + 'p event list" where
  "lifecycle cv ch tid cb calls =
     (case (TrajectoryBuilderStub_ctor cv ch tid cb
              :: 'p no_return + ('d, 'p, 'cb) TrajectoryBuilderStub) of
        Inl f \<Rightarrow> Inl f
      | Inr s0 \<Rightarrow>
          (case AddSensorData_seq cv calls s0 of
             Inl f \<Rightarrow> Inl f
           | Inr s \<Rightarrow> TrajectoryBuilderStub_dtor s))"

text \<open>
  The object that construction with the callback \<open>''cb''\<close> makes on this transport, and a
  transport whose inbound stream never ends.
\<close>

definition example_stub_cb :: "(nat, nat, string) TrajectoryBuilderStub" where
  "example_stub_cb =
     example_stub\<lparr> reader_client_reader := Some 2,
       reader_thread :=
         Some (RunLocalSlamResultReader example_conversions example_channel 2 ''cb''),
       trace := [EvNewStub (Some 1), EvReceiveLocalSlamResults 7 2, EvThreadStart] \<rparr>"

definition endless_channel :: "nat channel" where
  "endless_channel = example_channel\<lparr> reader_Read := \<lambda>i. Some (example_message 1000 10 False) \<rparr>"

text \<open>
  The trace of the owning thread for the life: construction with a callback on the example
  transport, \<open>example_calls\<close>, destruction.
\<close>

definition example_life :: "nat event list" where
  "example_life =
     [EvNewStub (Some 1), EvReceiveLocalSlamResults 7 2, EvThreadStart,
      EvOpenWriter Rangefinder (Some 3),
      EvWrite Rangefinder 3
        (AddRangefinderDataRequest \<lparr> md_sensor_id = ''range'', md_trajectory_id = 7 \<rparr> 101) True,
      EvOpenWriter Imu (Some 5),
      EvWrite Imu 5
        (AddImuDataRequest \<lparr> md_sensor_id = ''imu'', md_trajectory_id = 7 \<rparr> 202) True,
      EvWrite Rangefinder 3
        (AddRangefinderDataRequest \<lparr> md_sensor_id = ''range'', md_trajectory_id = 7 \<rparr> 103) True,
      EvThreadJoin,
      EvWritesDone Rangefinder 3 True, EvFinish Rangefinder 3 True,
      EvWritesDone Imu 5 True, EvFinish Imu 5 True]"

definition example_stub_cb_used :: "(nat, nat, string) TrajectoryBuilderStub" where
  "example_stub_cb_used =
     example_stub_cb\<lparr> rangefinder_writer := Some 3, imu_writer := Some 5,
       trace := take 8 example_life \<rparr>"

text \<open>
  The link between the destructor's trace and the transport.  An event of an end-of-writes
  signal or of a completion acknowledgment records the answer of the channel when that
  answer is the one the channel gives at the trace before the event.
\<close>

fun answer_recorded :: "'p channel \<Rightarrow> 'p event list \<Rightarrow> 'p event \<Rightarrow> bool" where
  "answer_recorded ch tr (EvWritesDone k h b) = (b = writer_WritesDone ch k tr)"
| "answer_recorded ch tr (EvFinish k h b) = (b = writer_Finish ch k tr)"
| "answer_recorded ch tr e = True"

fun answers_recorded :: "'p channel \<Rightarrow> 'p event list \<Rightarrow> 'p event list \<Rightarrow> bool" where
  "answers_recorded ch tr [] = True"
| "answers_recorded ch tr (e # es) =
     (answer_recorded ch tr e \<and> answers_recorded ch (tr @ [e]) es)"

text \<open>
  The channel answers with success both the end-of-writes signal and the completion
  acknowledgment of a writer, asked at the trace \<open>tr\<close>.
\<close>

definition acks_ok :: "'p channel \<Rightarrow> sensor_kind \<Rightarrow> handle option \<Rightarrow> 'p event list \<Rightarrow> bool" where
  "acks_ok ch k w tr =
     (case w of None \<Rightarrow> True
      | Some h \<Rightarrow> writer_WritesDone ch k tr \<and> writer_Finish ch k (tr @ [EvWritesDone k h True]))"

text \<open>
  The trace at which the destructor comes to the writer of kind \<open>k\<close> when the writers
  before it were finalized with success.
\<close>

fun kinds_before :: "sensor_kind \<Rightarrow> sensor_kind list" where
  "kinds_before Rangefinder = []"
| "kinds_before Imu = [Rangefinder]"
| "kinds_before Odometry = [Rangefinder, Imu]"
| "kinds_before FixedFramePose = [Rangefinder, Imu, Odometry]"

definition reached :: "('d, 'p, 'cb) TrajectoryBuilderStub \<Rightarrow> sensor_kind \<Rightarrow> 'p event list" where
  "reached s k = after_join s @ concat (map (finalized s) (kinds_before k))"

subsection \<open>One call of AddSensorData\<close>

lemma AddSensorData_open:
  assumes "writer_of (kind_of c) s = Some h"
  shows "AddSensorData cv c s =
           Inr (s\<lparr> trace := trace s @
                  [EvWrite (kind_of c) h (request_of cv (this_trajectory_id s) c)
                     (writer_Write (this_client_channel s) (kind_of c) (trace s)
                        (request_of cv (this_trajectory_id s) c))] \<rparr>)"
  using assms
  by (cases c)
     (simp_all add: AddSensorData_TimedPointCloudData_def AddSensorData_ImuData_def
        AddSensorData_OdometryData_def AddSensorData_FixedFramePoseData_def
        Write_request_def CreateSensorMetadata_def)

lemma AddSensorData_null:
  assumes "writer_of (kind_of c) s = None"
      and "open_writer (this_client_channel s) (kind_of c) (trace s) = None"
  shows "AddSensorData cv c s = Inl (CHECK_failed (trace s @ [EvOpenWriter (kind_of c) None]))"
  using assms
  by (cases c)
     (simp_all add: AddSensorData_TimedPointCloudData_def AddSensorData_ImuData_def
        AddSensorData_OdometryData_def AddSensorData_FixedFramePoseData_def)

lemma writer_of_updates:
  "writer_of k (s\<lparr>rangefinder_writer := w\<rparr>) = (if k = Rangefinder then w else writer_of k s)"
  "writer_of k (s\<lparr>imu_writer := w\<rparr>) = (if k = Imu then w else writer_of k s)"
  "writer_of k (s\<lparr>odometry_writer := w\<rparr>) = (if k = Odometry then w else writer_of k s)"
  "writer_of k (s\<lparr>fixed_frame_writer := w\<rparr>) = (if k = FixedFramePose then w else writer_of k s)"
  "writer_of k (s\<lparr>trace := tr\<rparr>) = writer_of k s"
  by (cases k; simp)+

lemma AddSensorData_first:
  assumes "writer_of (kind_of c) s = None"
      and "open_writer (this_client_channel s) (kind_of c) (trace s) = Some h"
  shows "\<exists>s'. AddSensorData cv c s = Inr s'
           \<and> writer_of (kind_of c) s' = Some h
           \<and> (\<forall>k. k \<noteq> kind_of c \<longrightarrow> writer_of k s' = writer_of k s)
           \<and> this_trajectory_id s' = this_trajectory_id s
           \<and> this_client_channel s' = this_client_channel s
           \<and> this_stub s' = this_stub s
           \<and> reader_client_reader s' = reader_client_reader s
           \<and> reader_thread s' = reader_thread s
           \<and> trace s' = trace s @
                [EvOpenWriter (kind_of c) (Some h),
                 EvWrite (kind_of c) h (request_of cv (this_trajectory_id s) c)
                   (writer_Write (this_client_channel s) (kind_of c)
                      (trace s @ [EvOpenWriter (kind_of c) (Some h)])
                      (request_of cv (this_trajectory_id s) c))]"
  using assms
  by (cases c)
     (simp_all add: AddSensorData_TimedPointCloudData_def AddSensorData_ImuData_def
        AddSensorData_OdometryData_def AddSensorData_FixedFramePoseData_def
        Write_request_def CreateSensorMetadata_def writer_of_updates)


lemma AddSensorData_Inr_cases:
  assumes "AddSensorData cv c s = Inr s'"
  obtains (reuse) h where "writer_of (kind_of c) s = Some h"
      and "s' = s\<lparr> trace := trace s @
                  [EvWrite (kind_of c) h (request_of cv (this_trajectory_id s) c)
                     (writer_Write (this_client_channel s) (kind_of c) (trace s)
                        (request_of cv (this_trajectory_id s) c))] \<rparr>"
    | (first) h where "writer_of (kind_of c) s = None"
      and "open_writer (this_client_channel s) (kind_of c) (trace s) = Some h"
      and "writer_of (kind_of c) s' = Some h"
      and "\<And>k. k \<noteq> kind_of c \<Longrightarrow> writer_of k s' = writer_of k s"
      and "this_trajectory_id s' = this_trajectory_id s"
      and "this_client_channel s' = this_client_channel s"
      and "reader_client_reader s' = reader_client_reader s"
      and "reader_thread s' = reader_thread s"
      and "trace s' = trace s @
                [EvOpenWriter (kind_of c) (Some h),
                 EvWrite (kind_of c) h (request_of cv (this_trajectory_id s) c)
                   (writer_Write (this_client_channel s) (kind_of c)
                      (trace s @ [EvOpenWriter (kind_of c) (Some h)])
                      (request_of cv (this_trajectory_id s) c))]"
proof (cases "writer_of (kind_of c) s")
  case (Some h)
  with assms AddSensorData_open [OF Some, of cv] show ?thesis
    by (intro reuse [of h]) simp_all
next
  case None
  show ?thesis
  proof (cases "open_writer (this_client_channel s) (kind_of c) (trace s)")
    case nul: None
    with assms AddSensorData_null [OF None nul, of cv] show ?thesis by simp
  next
    case (Some h)
    from AddSensorData_first [OF None Some, of cv] assms
    show ?thesis by (intro first [of h]) (auto simp: None Some)
  qed
qed

lemma AddSensorData_frame:
  assumes "AddSensorData cv c s = Inr s'"
  shows "this_trajectory_id s' = this_trajectory_id s"
    and "this_client_channel s' = this_client_channel s"
    and "reader_client_reader s' = reader_client_reader s"
    and "reader_thread s' = reader_thread s"
    and "k \<noteq> kind_of c \<Longrightarrow> writer_of k s' = writer_of k s"
    and "writer_of (kind_of c) s' \<noteq> None"
    and "writer_of k s \<noteq> None \<Longrightarrow> writer_of k s' = writer_of k s"
  using assms
  by (cases rule: AddSensorData_Inr_cases; cases "k = kind_of c";
      simp add: writer_of_updates)+

lemma AddSensorData_trace:
  assumes "AddSensorData cv c s = Inr s'"
  shows "\<exists>ev. trace s' = trace s @ ev
           \<and> (\<forall>e\<in>set ev. event_kind e = Some (kind_of c) \<and> \<not> is_finalize e)"
  using assms by (cases rule: AddSensorData_Inr_cases) simp_all





subsection \<open>Construction and sequences of calls\<close>

lemma ctor_Inr:
  assumes "TrajectoryBuilderStub_ctor cv ch tid cb = Inr s0"
  shows "NewStub ch = Some (this_stub s0)"
    and "this_client_channel s0 = ch"
    and "this_trajectory_id s0 = tid"
    and "writer_of k s0 = None"
    and "cb = None \<Longrightarrow> reader_thread s0 = None \<and> reader_client_reader s0 = None
           \<and> trace s0 = [EvNewStub (Some (this_stub s0))]"
    and "cb = Some f \<Longrightarrow>
           reader_thread s0 =
             Some (RunLocalSlamResultReader cv ch (ReceiveLocalSlamResults ch tid) f)
           \<and> reader_client_reader s0 = Some (ReceiveLocalSlamResults ch tid)
           \<and> trace s0 = [EvNewStub (Some (this_stub s0)),
                          EvReceiveLocalSlamResults tid (ReceiveLocalSlamResults ch tid),
                          EvThreadStart]"
  using assms
  by (cases k; auto simp: TrajectoryBuilderStub_ctor_def Let_def split: option.splits)+



lemma seq_frame:
  assumes "AddSensorData_seq cv calls s = Inr s'"
  shows "this_trajectory_id s' = this_trajectory_id s
       \<and> this_client_channel s' = this_client_channel s
       \<and> reader_client_reader s' = reader_client_reader s
       \<and> reader_thread s' = reader_thread s"
  using assms
proof (induction calls arbitrary: s)
  case Nil
  then show ?case by simp
next
  case (Cons c cs)
  then obtain s1 where 1: "AddSensorData cv c s = Inr s1"
    and 2: "AddSensorData_seq cv cs s1 = Inr s'"
    by (auto split: sum.splits)
  from Cons.IH [OF 2] AddSensorData_frame(1-4) [OF 1] show ?case by simp
qed



lemma seq_trace:
  assumes "AddSensorData_seq cv calls s = Inr s'"
  shows "\<exists>ev. trace s' = trace s @ ev
           \<and> (\<forall>e\<in>set ev. event_kind e \<noteq> None \<and> \<not> is_finalize e)"
  using assms
proof (induction calls arbitrary: s)
  case Nil
  then show ?case by simp
next
  case (Cons c cs)
  then obtain s1 where 1: "AddSensorData cv c s = Inr s1"
    and 2: "AddSensorData_seq cv cs s1 = Inr s'"
    by (auto split: sum.splits)
  from AddSensorData_trace [OF 1] obtain ev1 where
    e1: "trace s1 = trace s @ ev1" "\<forall>e\<in>set ev1. event_kind e = Some (kind_of c) \<and> \<not> is_finalize e"
    by blast
  from Cons.IH [OF 2] obtain ev2 where
    e2: "trace s' = trace s1 @ ev2" "\<forall>e\<in>set ev2. event_kind e \<noteq> None \<and> \<not> is_finalize e"
    by blast
  from e1 e2 have "trace s' = trace s @ (ev1 @ ev2)
      \<and> (\<forall>e\<in>set (ev1 @ ev2). event_kind e \<noteq> None \<and> \<not> is_finalize e)"
    by auto
  then show ?case by blast
qed



lemma AddSensorData_Inl:
  assumes "AddSensorData cv c s = Inl f"
  shows "f = CHECK_failed (trace s @ [EvOpenWriter (kind_of c) None])
       \<and> writer_of (kind_of c) s = None
       \<and> open_writer (this_client_channel s) (kind_of c) (trace s) = None"
proof (cases "writer_of (kind_of c) s")
  case (Some h)
  from AddSensorData_open [OF Some, of cv] assms show ?thesis by simp
next
  case None
  show ?thesis
  proof (cases "open_writer (this_client_channel s) (kind_of c) (trace s)")
    case nul: None
    from AddSensorData_null [OF None nul, of cv] assms None nul show ?thesis by simp
  next
    case (Some h)
    from AddSensorData_first [OF None Some, of cv] assms show ?thesis by auto
  qed
qed

subsection \<open>The operations on the example transport\<close>

lemma example_ctor:
  "TrajectoryBuilderStub_ctor example_conversions example_channel 7 None = Inr example_stub"
  by (simp add: TrajectoryBuilderStub_ctor_def example_channel_def example_stub_def)

lemma example_imu_call:
  "AddSensorData example_conversions (ImuData ''imu'' 2) example_stub =
     Inr (example_stub\<lparr> imu_writer := Some 1,
            trace := [EvNewStub (Some 1), EvOpenWriter Imu (Some 1),
                      EvWrite Imu 1
                        (AddImuDataRequest \<lparr> md_sensor_id = ''imu'', md_trajectory_id = 7 \<rparr> 202)
                        True] \<rparr>)"
  by (simp add: AddSensorData_ImuData_def example_stub_def example_channel_def
        example_conversions_def Write_request_def CreateSensorMetadata_def)

lemma example_run:
  "AddSensorData_seq example_conversions example_calls example_stub = Inr example_stub_used"
  by (simp add: example_calls_def AddSensorData_TimedPointCloudData_def AddSensorData_ImuData_def
        example_stub_def example_stub_used_def example_channel_def example_conversions_def
        Write_request_def CreateSensorMetadata_def)

subsection \<open>Destruction\<close>

lemma finalize_writer_Inr:
  assumes "finalize_writer ch k w tr = Inr tr'"
  shows "tr' = tr @ ack_events (k, w)"
  using assms
  by (auto simp: finalize_writer_def ack_events_def Let_def split: option.splits if_splits)

lemma finalize_writer_Inl:
  assumes "finalize_writer ch k w tr = Inl f"
  shows "\<exists>h. w = Some h \<and>
           (f = CHECK_failed (tr @ [EvWritesDone k h False])
            \<or> f = CHECK_failed (tr @ [EvWritesDone k h True, EvFinish k h False]))"
  using assms
  by (auto simp: finalize_writer_def Let_def split: option.splits if_splits)

lemma ack_events_ok: "e \<in> set (ack_events kw) \<Longrightarrow> is_finalize e \<and> \<not> failed_ack e"
  by (auto simp: ack_events_def split: option.splits)

lemma finalize_all_result:
  "case finalize_all ch ws tr of
     Inr tr' \<Rightarrow> tr' = tr @ concat (map ack_events ws)
   | Inl (CHECK_failed tr') \<Rightarrow>
       \<exists>k h pre e. (k, Some h) \<in> set ws \<and> tr' = tr @ pre @ [e]
          \<and> (e = EvWritesDone k h False \<or> e = EvFinish k h False)
          \<and> (\<forall>e'\<in>set pre. is_finalize e' \<and> \<not> failed_ack e')
   | Inl (Join_blocks tr') \<Rightarrow> False"
proof (induction ws arbitrary: tr)
  case Nil
  show ?case by simp
next
  case (Cons kw ws)
  obtain k w where kw: "kw = (k, w)" by (cases kw)
  show ?case
  proof (cases "finalize_writer ch k w tr")
    case (Inl f)
    from finalize_writer_Inl [OF Inl] obtain h where h: "w = Some h"
      and f: "f = CHECK_failed (tr @ [] @ [EvWritesDone k h False])
            \<or> f = CHECK_failed (tr @ [EvWritesDone k h True] @ [EvFinish k h False])"
      by auto
    from f show ?thesis
    proof
      assume "f = CHECK_failed (tr @ [] @ [EvWritesDone k h False])"
      with Inl kw h show ?thesis
        by (auto intro!: exI [of _ k] exI [of _ h] exI [of _ "[]"])
    next
      assume "f = CHECK_failed (tr @ [EvWritesDone k h True] @ [EvFinish k h False])"
      with Inl kw h show ?thesis
        by (auto intro!: exI [of _ k] exI [of _ h] exI [of _ "[EvWritesDone k h True]"])
    qed
  next
    case (Inr tr1)
    from finalize_writer_Inr [OF Inr] have tr1: "tr1 = tr @ ack_events (k, w)" .
    from Inr kw have eq: "finalize_all ch (kw # ws) tr = finalize_all ch ws tr1" by simp
    show ?thesis
    proof (cases "finalize_all ch ws tr1")
      case r: (Inr tr2)
      with Cons.IH [where tr = tr1] eq tr1 kw show ?thesis by simp
    next
      case l: (Inl f)
      show ?thesis
      proof (cases f)
        case (CHECK_failed tr2)
        with Cons.IH [where tr = tr1] l obtain k' h' pre e where
          *: "(k', Some h') \<in> set ws" "tr2 = tr1 @ pre @ [e]"
             "e = EvWritesDone k' h' False \<or> e = EvFinish k' h' False"
             "\<forall>e'\<in>set pre. is_finalize e' \<and> \<not> failed_ack e'"
          by auto
        from * tr1 have "(k', Some h') \<in> set (kw # ws)
            \<and> tr2 = tr @ (ack_events (k, w) @ pre) @ [e]
            \<and> (e = EvWritesDone k' h' False \<or> e = EvFinish k' h' False)
            \<and> (\<forall>e'\<in>set (ack_events (k, w) @ pre). is_finalize e' \<and> \<not> failed_ack e')"
          by (auto dest: ack_events_ok)
        then have "\<exists>k h pre e. (k, Some h) \<in> set (kw # ws) \<and> tr2 = tr @ pre @ [e]
          \<and> (e = EvWritesDone k h False \<or> e = EvFinish k h False)
          \<and> (\<forall>e'\<in>set pre. is_finalize e' \<and> \<not> failed_ack e')"
          by blast
        with eq l CHECK_failed show ?thesis by simp
      next
        case (Join_blocks tr2)
        with Cons.IH [where tr = tr1] l show ?thesis by simp
      qed
    qed
  qed
qed

lemma dtor_finalize_all:
  "TrajectoryBuilderStub_dtor s =
     (if reader_thread s = Some None then Inl (Join_blocks (trace s))
      else finalize_all (this_client_channel s)
             [(Rangefinder, rangefinder_writer s), (Imu, imu_writer s),
              (Odometry, odometry_writer s), (FixedFramePose, fixed_frame_writer s)]
             (after_join s))"
  by (simp add: TrajectoryBuilderStub_dtor_def after_join_def split: option.splits sum.splits)

lemma example_dtor:
  "TrajectoryBuilderStub_dtor example_stub_used =
     Inr (trace example_stub_used @
            [EvWritesDone Rangefinder 1 True, EvFinish Rangefinder 1 True,
             EvWritesDone Imu 3 True, EvFinish Imu 3 True])"
  by (simp add: TrajectoryBuilderStub_dtor_def finalize_writer_def example_stub_used_def
        example_stub_def example_channel_def)

subsection \<open>The reader thread\<close>

lemma read_loop_ends:
  assumes "\<forall>j<length msgs. reader_Read ch j = Some (msgs ! j)"
      and "reader_Read ch (length msgs) = None"
      and "i \<le> length msgs"
  shows "read_loop cv ch r cb i log =
           Some (log @ deliveries cv r cb (drop i msgs) @ [RdRead r None])"
  using assms(3)
proof (induction "length msgs - i" arbitrary: i log)
  case 0
  then have "i = length msgs" by simp
  with assms(2) show ?case
    by (subst read_loop.simps) (simp add: deliveries_def)
next
  case (Suc d)
  then have lt: "i < length msgs" by simp
  with assms(1) have rd: "reader_Read ch i = Some (msgs ! i)" by simp
  from Suc(2) lt have "d = length msgs - Suc i" by simp
  from Suc(1) [OF this] lt have IH: "read_loop cv ch r cb (Suc i) log' =
      Some (log' @ deliveries cv r cb (drop (Suc i) msgs) @ [RdRead r None])" for log'
    by simp
  have dr: "drop i msgs = msgs ! i # drop (Suc i) msgs"
    using lt by (simp add: Cons_nth_drop_Suc)
  show ?case
    by (subst read_loop.simps) (simp add: rd IH dr deliveries_def invocation_def Let_def)
qed

lemma read_loop_Some_ends:
  assumes "read_loop cv ch r cb i log = Some y"
  shows "\<exists>n\<ge>i. reader_Read ch n = None"
proof (rule read_loop.raw_induct
    [where P = "\<lambda>cv ch r cb i log y. \<exists>n\<ge>i. reader_Read ch n = None", OF _ assms],
    goal_cases)
  case (1 read_loop cv ch client_reader local_slam_result_callback i log y)
  show ?case
  proof (cases "reader_Read ch i")
    case None
    then show ?thesis by blast
  next
    case (Some response)
    with 1(2) obtain log' where
      "read_loop cv ch client_reader local_slam_result_callback (Suc i) log' = Some y"
      by (auto simp: Let_def)
    from 1(1) [OF this] obtain n where "n \<ge> Suc i" "reader_Read ch n = None" by blast
    then show ?thesis by (intro exI [of _ n]) simp
  qed
qed

lemma RunLocalSlamResultReader_ends:
  assumes "\<forall>j<length msgs. reader_Read ch j = Some (msgs ! j)"
      and "reader_Read ch (length msgs) = None"
  shows "RunLocalSlamResultReader cv ch r cb =
           Some (deliveries cv r cb msgs @ [RdRead r None, RdFinish r (reader_Finish ch)])"
  using read_loop_ends [OF assms, of 0 cv r cb "[]"]
  by (simp add: RunLocalSlamResultReader_def)

lemma RunLocalSlamResultReader_forever:
  assumes "\<forall>n. reader_Read ch n \<noteq> None"
  shows "RunLocalSlamResultReader cv ch r cb = None"
proof (cases "read_loop cv ch r cb 0 []")
  case None
  then show ?thesis by (simp add: RunLocalSlamResultReader_def)
next
  case (Some y)
  from read_loop_Some_ends [OF Some] assms show ?thesis by blast
qed

lemma callbacks_deliveries:
  "filter is_callback (deliveries cv r cb msgs) = map (invocation cv cb) msgs"
  by (induction msgs) (simp_all add: deliveries_def invocation_def)

lemma deliveries_no_finish: "e \<in> set (deliveries cv r cb msgs) \<Longrightarrow> \<not> is_reader_finish e"
  by (induction msgs) (auto simp: deliveries_def invocation_def)

lemma example_inbound_stream:
  "\<forall>j<length example_inbound. reader_Read example_channel j = Some (example_inbound ! j)"
  "reader_Read example_channel (length example_inbound) = None"
  by (simp_all add: example_channel_def)

lemma read_loop_same_reads:
  assumes "read_loop cv ch r cb i log = Some y" and "reader_Read ch' = reader_Read ch"
  shows "read_loop cv ch' r cb i log = Some y"
proof -
  have "\<forall>ch'. reader_Read ch' = reader_Read ch \<longrightarrow> read_loop cv ch' r cb i log = Some y"
  proof (rule read_loop.raw_induct
      [where P = "\<lambda>cv ch r cb i log y.
                    \<forall>ch'. reader_Read ch' = reader_Read ch \<longrightarrow> read_loop cv ch' r cb i log = Some y",
       OF _ assms(1)], goal_cases)
    case (1 rl cv ch r cb i log y)
    show ?case
    proof (intro allI impI)
      fix ch' :: "'b channel"
      assume same: "reader_Read ch' = reader_Read ch"
      show "read_loop cv ch' r cb i log = Some y"
      proof (cases "reader_Read ch i")
        case None
        with 1(2) same show ?thesis by (subst read_loop.simps) simp
      next
        case (Some response)
        with 1(2) obtain log' where
          l: "log' = log @ [RdRead r (Some response), invocation cv cb response]"
          and "rl cv ch r cb (Suc i) log' = Some y"
          by (auto simp: Let_def invocation_def)
        from 1(1) [OF this(2)] same have "read_loop cv ch' r cb (Suc i) log' = Some y"
          by blast
        with Some same l show ?thesis
          by (subst read_loop.simps) (simp add: Let_def invocation_def)
      qed
    qed
  qed
  with assms(2) show ?thesis by blast
qed

lemma read_loop_finish_irrelevant:
  "read_loop cv (ch\<lparr> reader_Finish := b \<rparr>) r cb i log = read_loop cv ch r cb i log"
proof (cases "read_loop cv ch r cb i log")
  case (Some y)
  from read_loop_same_reads [OF Some, of "ch\<lparr> reader_Finish := b \<rparr>"] Some
  show ?thesis by simp
next
  case None
  show ?thesis
  proof (cases "read_loop cv (ch\<lparr> reader_Finish := b \<rparr>) r cb i log")
    case n: None
    with None show ?thesis by simp
  next
    case (Some y)
    from read_loop_same_reads [OF Some, of ch] None show ?thesis by simp
  qed
qed

lemma RunLocalSlamResultReader_finish:
  "RunLocalSlamResultReader cv (ch\<lparr> reader_Finish := b \<rparr>) r cb =
     (case read_loop cv ch r cb 0 [] of None \<Rightarrow> None
      | Some log \<Rightarrow> Some (log @ [RdFinish r b]))"
  by (simp add: RunLocalSlamResultReader_def read_loop_finish_irrelevant split: option.splits)

lemma RunLocalSlamResultReader_finish_None:
  "RunLocalSlamResultReader cv (ch\<lparr> reader_Finish := b \<rparr>) r cb = None \<longleftrightarrow>
   RunLocalSlamResultReader cv ch r cb = None"
  by (simp add: RunLocalSlamResultReader_finish)
     (simp add: RunLocalSlamResultReader_def split: option.splits)

subsection \<open>The owning thread does not see the status of the inbound stream\<close>

lemma AddSensorData_finish_irrelevant:
  "AddSensorData cv c
     (s\<lparr> this_client_channel := (this_client_channel s)\<lparr> reader_Finish := b \<rparr>,
         reader_thread := th \<rparr>) =
   (case AddSensorData cv c s of
      Inl f \<Rightarrow> Inl f
    | Inr s' \<Rightarrow>
        Inr (s'\<lparr> this_client_channel := (this_client_channel s')\<lparr> reader_Finish := b \<rparr>,
                 reader_thread := th \<rparr>))"
  by (cases c)
     (simp_all add: AddSensorData_TimedPointCloudData_def AddSensorData_ImuData_def
        AddSensorData_OdometryData_def AddSensorData_FixedFramePoseData_def
        Write_request_def CreateSensorMetadata_def split: option.splits)

lemma seq_finish_irrelevant:
  "AddSensorData_seq cv calls
     (s\<lparr> this_client_channel := (this_client_channel s)\<lparr> reader_Finish := b \<rparr>,
         reader_thread := th \<rparr>) =
   (case AddSensorData_seq cv calls s of
      Inl f \<Rightarrow> Inl f
    | Inr s' \<Rightarrow>
        Inr (s'\<lparr> this_client_channel := (this_client_channel s')\<lparr> reader_Finish := b \<rparr>,
                 reader_thread := th \<rparr>))"
proof (induction calls arbitrary: s)
  case Nil
  show ?case by simp
next
  case (Cons c cs)
  show ?case
    by (cases "AddSensorData cv c s")
       (simp_all add: AddSensorData_finish_irrelevant Cons.IH)
qed

lemma finalize_all_finish_irrelevant:
  "finalize_all (ch\<lparr> reader_Finish := b \<rparr>) ws tr = finalize_all ch ws tr"
proof (induction ws arbitrary: tr)
  case Nil
  show ?case by simp
next
  case (Cons kw ws)
  have fw: "finalize_writer (ch\<lparr> reader_Finish := b \<rparr>) k w tr = finalize_writer ch k w tr"
    for k w
    by (simp add: finalize_writer_def Let_def split: option.splits)
  show ?case
    by (cases kw; cases "finalize_writer ch (fst kw) (snd kw) tr") (simp_all add: fw Cons.IH)
qed

lemma dtor_finish_irrelevant:
  assumes "th = None \<longleftrightarrow> reader_thread s = None"
      and "th = Some None \<longleftrightarrow> reader_thread s = Some None"
  shows "TrajectoryBuilderStub_dtor
           (s\<lparr> this_client_channel := (this_client_channel s)\<lparr> reader_Finish := b \<rparr>,
               reader_thread := th \<rparr>) =
         TrajectoryBuilderStub_dtor s"
proof -
  consider "th = None" "reader_thread s = None"
    | "th = Some None" "reader_thread s = Some None"
    | l l' where "th = Some (Some l)" "reader_thread s = Some (Some l')"
    using assms by (cases th; cases "reader_thread s") auto
  then show ?thesis
    by cases
       (simp_all add: dtor_finalize_all after_join_def finalize_all_finish_irrelevant
          del: finalize_all.simps)
qed

lemma lifecycle_finish_irrelevant:
  "lifecycle cv (ch\<lparr> reader_Finish := b \<rparr>) tid cb calls = lifecycle cv ch tid cb calls"
proof (cases "NewStub ch")
  case None
  then show ?thesis by (simp add: lifecycle_def TrajectoryBuilderStub_ctor_def)
next
  case (Some st)
  show ?thesis
  proof (cases "TrajectoryBuilderStub_ctor cv ch tid cb")
    case (Inl f)
    with Some show ?thesis
      by (simp add: TrajectoryBuilderStub_ctor_def Let_def split: option.splits)
  next
    case (Inr s0)
    let ?th = "map_option
        (RunLocalSlamResultReader cv (ch\<lparr> reader_Finish := b \<rparr>) (ReceiveLocalSlamResults ch tid))
        cb"
    let ?upd = "\<lambda>s. s\<lparr> this_client_channel := (this_client_channel s)\<lparr> reader_Finish := b \<rparr>,
                       reader_thread := ?th \<rparr>"
    from Inr Some have c: "TrajectoryBuilderStub_ctor cv (ch\<lparr> reader_Finish := b \<rparr>) tid cb =
        Inr (?upd s0)"
      by (auto simp: TrajectoryBuilderStub_ctor_def Let_def split: option.splits)
    have th0: "reader_thread s0 =
        map_option (RunLocalSlamResultReader cv ch (ReceiveLocalSlamResults ch tid)) cb"
      using ctor_Inr(5,6) [OF Inr] by (cases cb) simp_all
    show ?thesis
    proof (cases "AddSensorData_seq cv calls s0")
      case l: (Inl f)
      with Inr c show ?thesis
        by (simp add: lifecycle_def seq_finish_irrelevant)
    next
      case r: (Inr s)
      from seq_frame [OF r] th0 have th: "reader_thread s =
          map_option (RunLocalSlamResultReader cv ch (ReceiveLocalSlamResults ch tid)) cb"
        by simp
      have "TrajectoryBuilderStub_dtor (?upd s) = TrajectoryBuilderStub_dtor s"
        by (rule dtor_finish_irrelevant)
           (cases cb; simp add: th RunLocalSlamResultReader_finish_None)+
      with Inr c r show ?thesis
        by (simp add: lifecycle_def seq_finish_irrelevant)
    qed
  qed
qed

subsection \<open>Destruction and the answers of the channel\<close>

lemma finalize_writer_ok:
  assumes "acks_ok ch k w tr"
  shows "finalize_writer ch k w tr = Inr (tr @ ack_events (k, w))"
  using assms
  by (auto simp: finalize_writer_def acks_ok_def ack_events_def Let_def split: option.splits)

lemma finalize_writer_not_ok:
  assumes "\<not> acks_ok ch k w tr"
  shows "\<exists>tr'. finalize_writer ch k w tr = Inl (CHECK_failed tr')"
  using assms
  by (auto simp: finalize_writer_def acks_ok_def Let_def split: option.splits)

lemma answers_recorded_append:
  "answers_recorded ch tr (es @ es') \<longleftrightarrow>
     answers_recorded ch tr es \<and> answers_recorded ch (tr @ es) es'"
  by (induction es arbitrary: tr) simp_all

lemma finalize_writer_recorded:
  "\<exists>added. final_trace (finalize_writer ch k w tr) = tr @ added
           \<and> answers_recorded ch tr added"
proof (cases w)
  case None
  then show ?thesis by (simp add: finalize_writer_def)
next
  case (Some h)
  show ?thesis
  proof (cases "writer_WritesDone ch k tr")
    case False
    with Some have "final_trace (finalize_writer ch k w tr) = tr @ [EvWritesDone k h False]
        \<and> answers_recorded ch tr [EvWritesDone k h False]"
      by (simp add: finalize_writer_def)
    then show ?thesis by blast
  next
    case True
    let ?b = "writer_Finish ch k (tr @ [EvWritesDone k h True])"
    from Some True have "final_trace (finalize_writer ch k w tr) =
          tr @ [EvWritesDone k h True, EvFinish k h ?b]
        \<and> answers_recorded ch tr [EvWritesDone k h True, EvFinish k h ?b]"
      by (cases ?b) (simp_all add: finalize_writer_def)
    then show ?thesis by blast
  qed
qed

lemma finalize_all_recorded:
  "\<exists>added. final_trace (finalize_all ch ws tr) = tr @ added
           \<and> answers_recorded ch tr added"
proof (induction ws arbitrary: tr)
  case Nil
  show ?case by simp
next
  case (Cons kw ws)
  obtain k w where kw: "kw = (k, w)" by (cases kw)
  from finalize_writer_recorded [where ch = ch and k = k and w = w and tr = tr]
  obtain a1 where
    a1: "final_trace (finalize_writer ch k w tr) = tr @ a1" "answers_recorded ch tr a1"
    by blast
  show ?case
  proof (cases "finalize_writer ch k w tr")
    case (Inl f)
    with a1 kw show ?thesis by auto
  next
    case (Inr tr1)
    with a1 have tr1: "tr1 = tr @ a1" by simp
    from Cons.IH [where tr = tr1] obtain a2 where
      a2: "final_trace (finalize_all ch ws tr1) = tr1 @ a2" "answers_recorded ch tr1 a2"
      by blast
    from a1(2) a2 tr1 have "final_trace (finalize_all ch ws tr1) = tr @ (a1 @ a2)
        \<and> answers_recorded ch tr (a1 @ a2)"
      by (simp add: answers_recorded_append)
    with Inr kw show ?thesis by auto
  qed
qed

lemma reached_simps:
  "reached s Rangefinder = after_join s"
  "reached s Imu = after_join s @ ack_events (Rangefinder, rangefinder_writer s)"
  "reached s Odometry =
     after_join s @ ack_events (Rangefinder, rangefinder_writer s)
       @ ack_events (Imu, imu_writer s)"
  "reached s FixedFramePose =
     after_join s @ ack_events (Rangefinder, rangefinder_writer s)
       @ ack_events (Imu, imu_writer s) @ ack_events (Odometry, odometry_writer s)"
  by (simp_all add: reached_def finalized_def ack_events_def split: option.splits)

lemma all_kinds: "(\<forall>k. Q k) \<longleftrightarrow> Q Rangefinder \<and> Q Imu \<and> Q Odometry \<and> Q FixedFramePose"
proof
  assume "\<forall>k. Q k"
  then show "Q Rangefinder \<and> Q Imu \<and> Q Odometry \<and> Q FixedFramePose" by simp
next
  assume a: "Q Rangefinder \<and> Q Imu \<and> Q Odometry \<and> Q FixedFramePose"
  show "\<forall>k. Q k"
  proof
    fix k from a show "Q k" by (cases k) simp_all
  qed
qed

lemma all_acks_ok:
  "(\<forall>k h. writer_of k s = Some h \<longrightarrow>
       writer_WritesDone ch k (reached s k)
       \<and> writer_Finish ch k (reached s k @ [EvWritesDone k h True]))
   \<longleftrightarrow> acks_ok ch Rangefinder (rangefinder_writer s) (reached s Rangefinder)
       \<and> acks_ok ch Imu (imu_writer s) (reached s Imu)
       \<and> acks_ok ch Odometry (odometry_writer s) (reached s Odometry)
       \<and> acks_ok ch FixedFramePose (fixed_frame_writer s) (reached s FixedFramePose)"
proof -
  have one: "(\<forall>h. writer_of k s = Some h \<longrightarrow>
       writer_WritesDone ch k (reached s k)
       \<and> writer_Finish ch k (reached s k @ [EvWritesDone k h True]))
     \<longleftrightarrow> acks_ok ch k (writer_of k s) (reached s k)" for k
    by (cases "writer_of k s") (simp_all add: acks_ok_def)
  have "(\<forall>k h. writer_of k s = Some h \<longrightarrow>
       writer_WritesDone ch k (reached s k)
       \<and> writer_Finish ch k (reached s k @ [EvWritesDone k h True]))
     \<longleftrightarrow> (\<forall>k. acks_ok ch k (writer_of k s) (reached s k))"
    using one by blast
  also have "\<dots> \<longleftrightarrow> acks_ok ch Rangefinder (writer_of Rangefinder s) (reached s Rangefinder)
      \<and> acks_ok ch Imu (writer_of Imu s) (reached s Imu)
      \<and> acks_ok ch Odometry (writer_of Odometry s) (reached s Odometry)
      \<and> acks_ok ch FixedFramePose (writer_of FixedFramePose s) (reached s FixedFramePose)"
    by (rule all_kinds)
  finally show ?thesis by simp
qed

text \<open>
  Past the join, the destructor returns exactly when the channel answers every signal and
  acknowledgment on the open writers with success; otherwise it ends in a failed
  \<^verbatim>\<open>CHECK\<close>.
\<close>

lemma dtor_by_answers:
  assumes "reader_thread s \<noteq> Some None"
  shows "(acks_ok (this_client_channel s) Rangefinder (rangefinder_writer s) (reached s Rangefinder)
          \<and> acks_ok (this_client_channel s) Imu (imu_writer s) (reached s Imu)
          \<and> acks_ok (this_client_channel s) Odometry (odometry_writer s) (reached s Odometry)
          \<and> acks_ok (this_client_channel s) FixedFramePose (fixed_frame_writer s)
                (reached s FixedFramePose)
          \<longrightarrow> TrajectoryBuilderStub_dtor s =
                Inr (after_join s @ finalized s Rangefinder @ finalized s Imu
                       @ finalized s Odometry @ finalized s FixedFramePose))
       \<and> (\<not> (acks_ok (this_client_channel s) Rangefinder (rangefinder_writer s)
                (reached s Rangefinder)
              \<and> acks_ok (this_client_channel s) Imu (imu_writer s) (reached s Imu)
              \<and> acks_ok (this_client_channel s) Odometry (odometry_writer s) (reached s Odometry)
              \<and> acks_ok (this_client_channel s) FixedFramePose (fixed_frame_writer s)
                    (reached s FixedFramePose))
          \<longrightarrow> (\<exists>tr. TrajectoryBuilderStub_dtor s = Inl (CHECK_failed tr)))"
proof -
  let ?ch = "this_client_channel s"
  let ?t0 = "after_join s"
  let ?t1 = "?t0 @ ack_events (Rangefinder, rangefinder_writer s)"
  let ?t2 = "?t1 @ ack_events (Imu, imu_writer s)"
  let ?t3 = "?t2 @ ack_events (Odometry, odometry_writer s)"
  let ?t4 = "?t3 @ ack_events (FixedFramePose, fixed_frame_writer s)"
  let ?oR = "acks_ok ?ch Rangefinder (rangefinder_writer s) ?t0"
  let ?oI = "acks_ok ?ch Imu (imu_writer s) ?t1"
  let ?oO = "acks_ok ?ch Odometry (odometry_writer s) ?t2"
  let ?oF = "acks_ok ?ch FixedFramePose (fixed_frame_writer s) ?t3"
  have d: "TrajectoryBuilderStub_dtor s =
      (case finalize_writer ?ch Rangefinder (rangefinder_writer s) ?t0 of
         Inl f \<Rightarrow> Inl f
       | Inr tr1 \<Rightarrow>
      (case finalize_writer ?ch Imu (imu_writer s) tr1 of
         Inl f \<Rightarrow> Inl f
       | Inr tr2 \<Rightarrow>
      (case finalize_writer ?ch Odometry (odometry_writer s) tr2 of
         Inl f \<Rightarrow> Inl f
       | Inr tr3 \<Rightarrow> finalize_writer ?ch FixedFramePose (fixed_frame_writer s) tr3)))"
  proof (cases "reader_thread s")
    case None
    then show ?thesis by (simp add: TrajectoryBuilderStub_dtor_def after_join_def)
  next
    case (Some th)
    with assms obtain log where "th = Some log" by (cases th) auto
    with Some show ?thesis by (simp add: TrajectoryBuilderStub_dtor_def after_join_def)
  qed
  have fin: "?t4 = after_join s @ finalized s Rangefinder @ finalized s Imu
                       @ finalized s Odometry @ finalized s FixedFramePose"
    by (simp add: finalized_def ack_events_def split: option.splits)
  have good: "TrajectoryBuilderStub_dtor s = Inr ?t4" if "?oR" "?oI" "?oO" "?oF"
  proof -
    note 1 = finalize_writer_ok [OF that(1)] and 2 = finalize_writer_ok [OF that(2)]
      and 3 = finalize_writer_ok [OF that(3)] and 4 = finalize_writer_ok [OF that(4)]
    show ?thesis by (simp only: d 1 2 3 4 sum.case)
  qed
  have bad: "\<exists>tr. TrajectoryBuilderStub_dtor s = Inl (CHECK_failed tr)"
    if "\<not> (?oR \<and> ?oI \<and> ?oO \<and> ?oF)"
  proof -
    from that consider (r) "\<not> ?oR" | (i) "?oR" "\<not> ?oI" | (o) "?oR" "?oI" "\<not> ?oO"
      | (f) "?oR" "?oI" "?oO" "\<not> ?oF"
      by blast
    then show ?thesis
    proof cases
      case r
      from finalize_writer_not_ok [OF r] obtain tr' where
        n: "finalize_writer ?ch Rangefinder (rangefinder_writer s) ?t0 = Inl (CHECK_failed tr')"
        by blast
      have "TrajectoryBuilderStub_dtor s = Inl (CHECK_failed tr')"
        by (simp only: d n sum.case)
      then show ?thesis by blast
    next
      case i
      note 1 = finalize_writer_ok [OF i(1)]
      from finalize_writer_not_ok [OF i(2)] obtain tr' where
        n: "finalize_writer ?ch Imu (imu_writer s) ?t1 = Inl (CHECK_failed tr')"
        by blast
      have "TrajectoryBuilderStub_dtor s = Inl (CHECK_failed tr')"
        by (simp only: d 1 n sum.case)
      then show ?thesis by blast
    next
      case o
      note 1 = finalize_writer_ok [OF o(1)] and 2 = finalize_writer_ok [OF o(2)]
      from finalize_writer_not_ok [OF o(3)] obtain tr' where
        n: "finalize_writer ?ch Odometry (odometry_writer s) ?t2 = Inl (CHECK_failed tr')"
        by blast
      have "TrajectoryBuilderStub_dtor s = Inl (CHECK_failed tr')"
        by (simp only: d 1 2 n sum.case)
      then show ?thesis by blast
    next
      case f
      note 1 = finalize_writer_ok [OF f(1)] and 2 = finalize_writer_ok [OF f(2)]
        and 3 = finalize_writer_ok [OF f(3)]
      from finalize_writer_not_ok [OF f(4)] obtain tr' where
        n: "finalize_writer ?ch FixedFramePose (fixed_frame_writer s) ?t3 = Inl (CHECK_failed tr')"
        by blast
      have "TrajectoryBuilderStub_dtor s = Inl (CHECK_failed tr')"
        by (simp only: d 1 2 3 n sum.case)
      then show ?thesis by blast
    qed
  qed
  have r: "reached s Rangefinder = ?t0" "reached s Imu = ?t1" "reached s Odometry = ?t2"
    "reached s FixedFramePose = ?t3"
    by (simp_all add: reached_simps)
  from good bad show ?thesis unfolding r fin [symmetric] by blast

qed

subsection \<open>What destruction adds to the trace\<close>

lemma dtor_trace:
  assumes "reader_thread s \<noteq> Some None"
  shows "\<exists>rest. final_trace (TrajectoryBuilderStub_dtor s) = after_join s @ rest
           \<and> (\<forall>e\<in>set rest. is_finalize e)"
proof -
  let ?ws = "[(Rangefinder, rangefinder_writer s), (Imu, imu_writer s),
              (Odometry, odometry_writer s), (FixedFramePose, fixed_frame_writer s)]"
  let ?F = "finalize_all (this_client_channel s) ?ws (after_join s)"
  have d: "TrajectoryBuilderStub_dtor s = ?F"
    using assms by (simp add: dtor_finalize_all)
  note r = finalize_all_result
    [where ch = "this_client_channel s" and ws = ?ws and tr = "after_join s"]
  show ?thesis
  proof (cases ?F)
    case (Inr tr)
    from r have "tr = after_join s @ concat (map ack_events ?ws)"
      unfolding Inr by simp
    moreover have "\<forall>e\<in>set (concat (map ack_events ?ws)). is_finalize e"
      by (auto dest: ack_events_ok)
    ultimately show ?thesis unfolding d Inr by (intro exI [of _ "concat (map ack_events ?ws)"]) simp
  next
    case (Inl f)
    show ?thesis
    proof (cases f)
      case (CHECK_failed tr)
      from r obtain k h pre e where
        *: "tr = after_join s @ pre @ [e]"
           "e = EvWritesDone k h False \<or> e = EvFinish k h False"
           "\<forall>e'\<in>set pre. is_finalize e' \<and> \<not> failed_ack e'"
        unfolding Inl CHECK_failed by auto
      then have "\<forall>e'\<in>set (pre @ [e]). is_finalize e'" by auto
      with *(1) show ?thesis
        unfolding d Inl CHECK_failed by (intro exI [of _ "pre @ [e]"]) simp
    next
      case (Join_blocks tr)
      from r show ?thesis unfolding Inl Join_blocks by simp
    qed
  qed
qed

lemma example_ctor_cb:
  "TrajectoryBuilderStub_ctor example_conversions example_channel 7 (Some ''cb'') =
     Inr example_stub_cb"
  by (simp add: TrajectoryBuilderStub_ctor_def example_channel_def example_stub_def
        example_stub_cb_def)

lemma example_run_cb:
  "\<exists>s. AddSensorData_seq example_conversions example_calls example_stub_cb = Inr s"
  by (simp add: example_calls_def AddSensorData_TimedPointCloudData_def AddSensorData_ImuData_def
        example_stub_def example_stub_cb_def example_channel_def Write_request_def)

lemma example_reader_returns:
  "RunLocalSlamResultReader example_conversions example_channel 2 ''cb'' \<noteq> None"
  using RunLocalSlamResultReader_ends
    [OF example_inbound_stream, of example_conversions 2 "''cb''"] by simp

lemma endless_reader:
  "RunLocalSlamResultReader example_conversions endless_channel 2 ''cb'' = None"
  by (rule RunLocalSlamResultReader_forever) (simp add: endless_channel_def)

lemma endless_ctor:
  "\<exists>s0. TrajectoryBuilderStub_ctor example_conversions endless_channel 7 (Some ''cb'') = Inr s0
        \<and> reader_thread s0 = Some None"
  using endless_reader
  by (simp add: TrajectoryBuilderStub_ctor_def endless_channel_def example_channel_def)

lemma example_reader_log:
  "RunLocalSlamResultReader example_conversions example_channel 2 ''cb'' =
     Some (deliveries example_conversions 2 ''cb'' example_inbound
             @ [RdRead 2 None, RdFinish 2 True])"
  using RunLocalSlamResultReader_ends
    [OF example_inbound_stream, of example_conversions 2 "''cb''"]
  by (simp add: example_channel_def)

lemma example_run_cb_used:
  "AddSensorData_seq example_conversions example_calls example_stub_cb =
     Inr example_stub_cb_used"
  by (simp add: example_calls_def AddSensorData_TimedPointCloudData_def AddSensorData_ImuData_def
        example_stub_def example_stub_cb_def example_stub_cb_used_def example_life_def
        example_channel_def example_conversions_def Write_request_def CreateSensorMetadata_def)

lemma example_channel_acks:
  "writer_WritesDone example_channel k tr" "writer_Finish example_channel k tr"
  by (simp_all add: example_channel_def)

lemma example_dtor_cb_used: "TrajectoryBuilderStub_dtor example_stub_cb_used = Inr example_life"
  by (simp add: TrajectoryBuilderStub_dtor_def finalize_writer_def example_stub_cb_used_def
        example_stub_cb_def example_stub_def example_reader_log example_life_def
        example_channel_acks)

lemma example_lifecycle:
  "lifecycle example_conversions example_channel 7 (Some ''cb'') example_calls =
     Inr example_life"
  by (simp add: lifecycle_def example_ctor_cb example_run_cb_used example_dtor_cb_used)

section \<open>The properties\<close>

text \<open>
  C8.  If the service stub cannot be made at construction, or an outbound stream cannot be
  opened on the first use of a sensor kind, the operation ends in a failed \<^verbatim>\<open>CHECK\<close> right
  after the call that returned null, with nothing written.  An object that construction
  returns has the stub that was made, and a call that returns has left a non-null writer
  for its kind and has written on that writer only.
\<close>

theorem C8_null_handle_is_fatal:
  "(NewStub ch = None \<longrightarrow>
      TrajectoryBuilderStub_ctor cv ch tid cb = Inl (CHECK_failed [EvNewStub None]))
   \<and> (\<forall>s0. TrajectoryBuilderStub_ctor cv ch tid cb = Inr s0 \<longrightarrow>
         NewStub ch = Some (this_stub s0))
   \<and> (writer_of (kind_of c) s = None
        \<and> open_writer (this_client_channel s) (kind_of c) (trace s) = None \<longrightarrow>
      AddSensorData cv c s = Inl (CHECK_failed (trace s @ [EvOpenWriter (kind_of c) None])))
   \<and> (\<forall>s'. AddSensorData cv c s = Inr s' \<longrightarrow>
         (\<exists>h ev. writer_of (kind_of c) s' = Some h \<and> trace s' = trace s @ ev
            \<and> (\<forall>w\<in>set (written ev).
                  w = (kind_of c, h, request_of cv (this_trajectory_id s) c))))"
proof (intro conjI allI impI)
  assume "NewStub ch = None"
  then show "TrajectoryBuilderStub_ctor cv ch tid cb = Inl (CHECK_failed [EvNewStub None])"
    by (simp add: TrajectoryBuilderStub_ctor_def)
next
  fix s0
  assume "TrajectoryBuilderStub_ctor cv ch tid cb = Inr s0"
  then show "NewStub ch = Some (this_stub s0)" by (rule ctor_Inr(1))
next
  assume "writer_of (kind_of c) s = None
        \<and> open_writer (this_client_channel s) (kind_of c) (trace s) = None"
  then show "AddSensorData cv c s = Inl (CHECK_failed (trace s @ [EvOpenWriter (kind_of c) None]))"
    by (simp add: AddSensorData_null)
next
  fix s'
  assume "AddSensorData cv c s = Inr s'"
  then show "\<exists>h ev. writer_of (kind_of c) s' = Some h \<and> trace s' = trace s @ ev
            \<and> (\<forall>w\<in>set (written ev).
                  w = (kind_of c, h, request_of cv (this_trajectory_id s) c))"
  proof (cases rule: AddSensorData_Inr_cases)
    case (reuse h)
    then show ?thesis by (simp add: writer_of_updates)
  next
    case (first h)
    then show ?thesis by simp
  qed
qed

theorem C8_null_handle_is_fatal_witness:
  "TrajectoryBuilderStub_ctor example_conversions (example_channel\<lparr> NewStub := None \<rparr>) 7
       (None :: string option) = Inl (CHECK_failed [EvNewStub None])
   \<and> NewStub example_channel = Some (this_stub example_stub)
   \<and> AddSensorData example_conversions (ImuData ''imu'' 2)
       (example_stub\<lparr> this_client_channel := example_channel\<lparr> open_writer := \<lambda>k tr. None \<rparr> \<rparr>)
       = Inl (CHECK_failed [EvNewStub (Some 1), EvOpenWriter Imu None])
   \<and> (\<exists>s'. AddSensorData example_conversions (ImuData ''imu'' 2) example_stub = Inr s'
          \<and> writer_of Imu s' = Some 1)"
proof -
  let ?bad = "example_stub\<lparr> this_client_channel := example_channel\<lparr> open_writer := \<lambda>k tr. None \<rparr> \<rparr>"
  note a = C8_null_handle_is_fatal
    [of "example_channel\<lparr> NewStub := None \<rparr>" example_conversions 7 "None :: string option"
        "ImuData ''imu'' 2" ?bad]
  note b = C8_null_handle_is_fatal
    [of example_channel example_conversions 7 "None :: string option"
        "ImuData ''imu'' 2" example_stub]
  have 1: "TrajectoryBuilderStub_ctor example_conversions (example_channel\<lparr> NewStub := None \<rparr>) 7
       (None :: string option) = Inl (CHECK_failed [EvNewStub None])"
    using a by simp
  have 2: "NewStub example_channel = Some (this_stub example_stub)"
    using b example_ctor by blast
  have "writer_of (kind_of (ImuData ''imu'' (2::nat))) ?bad = None
      \<and> open_writer (this_client_channel ?bad) (kind_of (ImuData ''imu'' (2::nat))) (trace ?bad)
          = None"
    by (simp add: example_stub_def)
  with a have 3: "AddSensorData example_conversions (ImuData ''imu'' 2) ?bad =
      Inl (CHECK_failed (trace ?bad @ [EvOpenWriter (kind_of (ImuData ''imu'' (2::nat))) None]))"
    by blast
  from b example_imu_call have 4: "\<exists>s'. AddSensorData example_conversions (ImuData ''imu'' 2)
      example_stub = Inr s' \<and> writer_of Imu s' = Some 1"
    by simp
  from 1 2 3 4 show ?thesis by (simp add: example_stub_def)
qed


text \<open>
  C10.  A call of \<^verbatim>\<open>AddSensorData\<close> adds to the trace only calls on the stream of the
  sample's kind, none of them a finalization, whether it returns or ends in a failed
  \<^verbatim>\<open>CHECK\<close>; when it returns, the writers of the other three kinds, the trajectory
  identity and the state of the result reader are as they were.
\<close>

theorem C10_other_kinds_untouched:
  "\<exists>ev. state_trace (AddSensorData cv c s) = trace s @ ev
      \<and> (\<forall>e\<in>set ev. event_kind e = Some (kind_of c) \<and> \<not> is_finalize e)
      \<and> (\<forall>s'. AddSensorData cv c s = Inr s' \<longrightarrow>
            (\<forall>k. k \<noteq> kind_of c \<longrightarrow> writer_of k s' = writer_of k s)
          \<and> this_trajectory_id s' = this_trajectory_id s
          \<and> reader_client_reader s' = reader_client_reader s
          \<and> reader_thread s' = reader_thread s)"
proof (cases "AddSensorData cv c s")
  case (Inl f)
  from AddSensorData_Inl [OF Inl] Inl show ?thesis by simp
next
  case (Inr s1)
  from AddSensorData_trace [OF Inr] obtain ev where
    "trace s1 = trace s @ ev" "\<forall>e\<in>set ev. event_kind e = Some (kind_of c) \<and> \<not> is_finalize e"
    by blast
  moreover have "\<forall>k. k \<noteq> kind_of c \<longrightarrow> writer_of k s1 = writer_of k s"
    using AddSensorData_frame(5) [OF Inr] by blast
  ultimately show ?thesis
    using Inr AddSensorData_frame(1,3,4) [OF Inr] by auto
qed

theorem C10_other_kinds_untouched_witness:
  "\<exists>s'. AddSensorData example_conversions (ImuData ''imu'' 2) example_stub = Inr s'
      \<and> Rangefinder \<noteq> kind_of (ImuData ''imu'' (2::nat))
      \<and> writer_of Rangefinder s' = writer_of Rangefinder example_stub
      \<and> this_trajectory_id s' = 7
      \<and> reader_thread s' = None
      \<and> (\<exists>ev. ev \<noteq> [] \<and> trace s' = trace example_stub @ ev
            \<and> (\<forall>e\<in>set ev. event_kind e = Some Imu))"
proof -
  from example_imu_call obtain s' where
    run: "AddSensorData example_conversions (ImuData ''imu'' 2) example_stub = Inr s'"
    and len: "length (trace s') = 3"
    by simp
  from C10_other_kinds_untouched [of example_conversions "ImuData ''imu'' 2" example_stub] run
  obtain ev where ev: "trace s' = trace example_stub @ ev"
      "\<forall>e\<in>set ev. event_kind e = Some Imu"
    and fr: "\<forall>k. k \<noteq> Imu \<longrightarrow> writer_of k s' = writer_of k example_stub"
      "this_trajectory_id s' = this_trajectory_id example_stub"
      "reader_thread s' = reader_thread example_stub"
    by auto
  from ev(1) len have "ev \<noteq> []" by (auto simp: example_stub_def)
  with run ev fr show ?thesis by (auto simp: example_stub_def)
qed






text \<open>
  C4.  Once past the join, the destructor either returns, and then it has added to the
  trace, for each open writer in turn, the end-of-writes signal and the completion
  acknowledgment, both successful; or it ends in a failed \<^verbatim>\<open>CHECK\<close> whose last event is
  an unsuccessful signal or acknowledgment on an open writer, every finalization before it
  having succeeded.  Every signal and acknowledgment in what it adds records the answer
  that the channel gives at that point.  If the channel answers with success the signal
  and the acknowledgment of every open writer, each asked at the trace at which the
  destructor comes to that writer, the destructor returns with all of them finalized; if
  for some open writer the channel's answer to the signal or to the acknowledgment is not
  a success, the destructor ends in a failed \<^verbatim>\<open>CHECK\<close>.
\<close>

theorem C4_failed_finalize_is_fatal:
  assumes "reader_thread s \<noteq> Some None"
  shows "(case TrajectoryBuilderStub_dtor s of
           Inr tr \<Rightarrow>
             tr = after_join s @ finalized s Rangefinder @ finalized s Imu
                    @ finalized s Odometry @ finalized s FixedFramePose
         | Inl (CHECK_failed tr) \<Rightarrow>
             \<exists>k h pre e. writer_of k s = Some h \<and> tr = after_join s @ pre @ [e]
                \<and> (e = EvWritesDone k h False \<or> e = EvFinish k h False)
                \<and> (\<forall>e'\<in>set pre. is_finalize e' \<and> \<not> failed_ack e')
         | Inl (Join_blocks tr) \<Rightarrow> False)
       \<and> (\<exists>added. final_trace (TrajectoryBuilderStub_dtor s) = after_join s @ added
             \<and> answers_recorded (this_client_channel s) (after_join s) added)
       \<and> ((\<forall>k h. writer_of k s = Some h \<longrightarrow>
               writer_WritesDone (this_client_channel s) k (reached s k)
               \<and> writer_Finish (this_client_channel s) k
                   (reached s k @ [EvWritesDone k h True]))
            \<longrightarrow> TrajectoryBuilderStub_dtor s =
                  Inr (after_join s @ finalized s Rangefinder @ finalized s Imu
                         @ finalized s Odometry @ finalized s FixedFramePose))
       \<and> ((\<exists>k h. writer_of k s = Some h
               \<and> \<not> (writer_WritesDone (this_client_channel s) k (reached s k)
                      \<and> writer_Finish (this_client_channel s) k
                          (reached s k @ [EvWritesDone k h True])))
            \<longrightarrow> (\<exists>tr. TrajectoryBuilderStub_dtor s = Inl (CHECK_failed tr)))"
proof -
  have shape: "case TrajectoryBuilderStub_dtor s of
           Inr tr \<Rightarrow>
             tr = after_join s @ finalized s Rangefinder @ finalized s Imu
                    @ finalized s Odometry @ finalized s FixedFramePose
         | Inl (CHECK_failed tr) \<Rightarrow>
             \<exists>k h pre e. writer_of k s = Some h \<and> tr = after_join s @ pre @ [e]
                \<and> (e = EvWritesDone k h False \<or> e = EvFinish k h False)
                \<and> (\<forall>e'\<in>set pre. is_finalize e' \<and> \<not> failed_ack e')
         | Inl (Join_blocks tr) \<Rightarrow> False"
  proof -
    let ?ws = "[(Rangefinder, rangefinder_writer s), (Imu, imu_writer s),
                (Odometry, odometry_writer s), (FixedFramePose, fixed_frame_writer s)]"
    have d: "TrajectoryBuilderStub_dtor s = finalize_all (this_client_channel s) ?ws (after_join s)"
      using assms by (simp add: dtor_finalize_all)
    have w: "writer_of k s = Some h" if "(k, Some h) \<in> set ?ws" for k h
      using that by auto
    have c: "concat (map ack_events ?ws) =
        finalized s Rangefinder @ finalized s Imu @ finalized s Odometry @ finalized s FixedFramePose"
      by (simp add: ack_events_def finalized_def split: option.splits)
    note r = finalize_all_result
      [where ch = "this_client_channel s" and ws = ?ws and tr = "after_join s"]
    show ?thesis
    proof (cases "TrajectoryBuilderStub_dtor s")
      case (Inr tr)
      then have fa: "finalize_all (this_client_channel s) ?ws (after_join s) = Inr tr"
        unfolding d .
      from r have "tr = after_join s @ concat (map ack_events ?ws)"
        unfolding fa by simp
      with c Inr show ?thesis by simp
    next
      case (Inl f)
      then have fa: "finalize_all (this_client_channel s) ?ws (after_join s) = Inl f"
        unfolding d .
      show ?thesis
      proof (cases f)
        case (CHECK_failed tr)
        from r obtain k h pre e where
          *: "(k, Some h) \<in> set ?ws" "tr = after_join s @ pre @ [e]"
             "e = EvWritesDone k h False \<or> e = EvFinish k h False"
             "\<forall>e'\<in>set pre. is_finalize e' \<and> \<not> failed_ack e'"
          unfolding fa CHECK_failed by auto
        from w [OF *(1)] *(2-4) have "\<exists>k h pre e. writer_of k s = Some h
            \<and> tr = after_join s @ pre @ [e]
            \<and> (e = EvWritesDone k h False \<or> e = EvFinish k h False)
            \<and> (\<forall>e'\<in>set pre. is_finalize e' \<and> \<not> failed_ack e')"
          by blast
        with Inl CHECK_failed show ?thesis by simp
      next
        case (Join_blocks tr)
        from r show ?thesis unfolding fa Join_blocks by simp
      qed
    qed
  qed
  have recorded: "\<exists>added. final_trace (TrajectoryBuilderStub_dtor s) = after_join s @ added
             \<and> answers_recorded (this_client_channel s) (after_join s) added"
    using assms finalize_all_recorded
      [where ch = "this_client_channel s" and tr = "after_join s"
         and ws = "[(Rangefinder, rangefinder_writer s), (Imu, imu_writer s),
                    (Odometry, odometry_writer s), (FixedFramePose, fixed_frame_writer s)]"]
    by (simp only: dtor_finalize_all if_False)
  note answers = dtor_by_answers [OF assms]
  note allk = all_acks_ok [where s = s and ch = "this_client_channel s"]
  have returns: "(\<forall>k h. writer_of k s = Some h \<longrightarrow>
               writer_WritesDone (this_client_channel s) k (reached s k)
               \<and> writer_Finish (this_client_channel s) k
                   (reached s k @ [EvWritesDone k h True]))
            \<longrightarrow> TrajectoryBuilderStub_dtor s =
                  Inr (after_join s @ finalized s Rangefinder @ finalized s Imu
                         @ finalized s Odometry @ finalized s FixedFramePose)"
    using answers unfolding allk by blast
  have "\<not> (\<forall>k h. writer_of k s = Some h \<longrightarrow>
               writer_WritesDone (this_client_channel s) k (reached s k)
               \<and> writer_Finish (this_client_channel s) k
                   (reached s k @ [EvWritesDone k h True]))
            \<longrightarrow> (\<exists>tr. TrajectoryBuilderStub_dtor s = Inl (CHECK_failed tr))"
    using answers unfolding allk by blast
  then have aborts: "(\<exists>k h. writer_of k s = Some h
               \<and> \<not> (writer_WritesDone (this_client_channel s) k (reached s k)
                      \<and> writer_Finish (this_client_channel s) k
                          (reached s k @ [EvWritesDone k h True])))
            \<longrightarrow> (\<exists>tr. TrajectoryBuilderStub_dtor s = Inl (CHECK_failed tr))"
    by blast
  from shape recorded returns aborts show ?thesis by (intro conjI)
qed

theorem C4_failed_finalize_is_fatal_witness:
  "reader_thread example_stub_used \<noteq> Some None
   \<and> TrajectoryBuilderStub_dtor example_stub_used =
       Inr (after_join example_stub_used @
              [EvWritesDone Rangefinder 1 True, EvFinish Rangefinder 1 True,
               EvWritesDone Imu 3 True, EvFinish Imu 3 True])
   \<and> writer_of Imu
        (example_stub_used\<lparr> this_client_channel :=
           example_channel\<lparr> writer_Finish := \<lambda>k tr. k \<noteq> Imu \<rparr> \<rparr>) = Some 3
   \<and> \<not> writer_Finish (example_channel\<lparr> writer_Finish := \<lambda>k tr. k \<noteq> Imu \<rparr>) Imu
         (reached (example_stub_used\<lparr> this_client_channel :=
                     example_channel\<lparr> writer_Finish := \<lambda>k tr. k \<noteq> Imu \<rparr> \<rparr>) Imu
            @ [EvWritesDone Imu 3 True])
   \<and> (\<exists>tr. TrajectoryBuilderStub_dtor
              (example_stub_used\<lparr> this_client_channel :=
                 example_channel\<lparr> writer_Finish := \<lambda>k tr. k \<noteq> Imu \<rparr> \<rparr>) =
              Inl (CHECK_failed tr)
          \<and> failed_ack (last tr))"
proof -
  let ?badch = "example_channel\<lparr> writer_Finish := \<lambda>k tr. k \<noteq> Imu \<rparr>"
  let ?bad = "example_stub_used\<lparr> this_client_channel := ?badch \<rparr>"
  have nt: "reader_thread example_stub_used \<noteq> Some None"
    and nt': "reader_thread ?bad \<noteq> Some None"
    by (simp_all add: example_stub_used_def example_stub_def)
  have fin: "finalized example_stub_used Rangefinder @ finalized example_stub_used Imu
        @ finalized example_stub_used Odometry @ finalized example_stub_used FixedFramePose =
      [EvWritesDone Rangefinder 1 True, EvFinish Rangefinder 1 True,
       EvWritesDone Imu 3 True, EvFinish Imu 3 True]"
    by (simp add: finalized_def example_stub_used_def example_stub_def)
  have ok: "\<forall>k h. writer_of k example_stub_used = Some h \<longrightarrow>
      writer_WritesDone (this_client_channel example_stub_used) k (reached example_stub_used k)
      \<and> writer_Finish (this_client_channel example_stub_used) k
          (reached example_stub_used k @ [EvWritesDone k h True])"
    by (simp add: example_stub_used_def example_stub_def example_channel_acks)
  from C4_failed_finalize_is_fatal [OF nt] ok fin
  have 1: "TrajectoryBuilderStub_dtor example_stub_used =
       Inr (after_join example_stub_used @
              [EvWritesDone Rangefinder 1 True, EvFinish Rangefinder 1 True,
               EvWritesDone Imu 3 True, EvFinish Imu 3 True])"
    by simp
  have w: "writer_of Imu ?bad = Some 3"
    by (simp add: example_stub_used_def example_stub_def)
  have no: "\<not> writer_Finish ?badch Imu (reached ?bad Imu @ [EvWritesDone Imu 3 True])"
    by simp
  have ch: "this_client_channel ?bad = ?badch" by simp
  from w no ch have "\<exists>k h. writer_of k ?bad = Some h
      \<and> \<not> (writer_WritesDone (this_client_channel ?bad) k (reached ?bad k)
            \<and> writer_Finish (this_client_channel ?bad) k
                (reached ?bad k @ [EvWritesDone k h True]))"
    by (intro exI [of _ Imu] exI [of _ 3]) (simp only: simp_thms)
  with C4_failed_finalize_is_fatal [OF nt'] obtain tr where
    bad: "TrajectoryBuilderStub_dtor ?bad = Inl (CHECK_failed tr)"
    by blast
  with C4_failed_finalize_is_fatal [OF nt'] obtain k h pre e where
    "tr = after_join ?bad @ pre @ [e]" "e = EvWritesDone k h False \<or> e = EvFinish k h False"
    by auto
  then have "failed_ack (last tr)" by auto
  with nt 1 w no bad show ?thesis by blast
qed

text \<open>
  C5.  When construction is given a callback \<open>cb\<close> and the inbound stream delivers the
  messages \<open>msgs\<close> and then ends, the reader thread that construction starts runs to its
  end, and what it does is: for each message in the order of arrival, the read that
  delivers it and then one call of \<open>cb\<close> on the decoded fields (the node identifier being
  there exactly when the message has one); then the read that reports the end of the
  stream; then \<^verbatim>\<open>Finish\<close>.  So the calls of \<open>cb\<close> are one for each message, in order, and
  none comes after the end of the stream.
\<close>

theorem C5_one_callback_per_result_in_order:
  assumes "TrajectoryBuilderStub_ctor cv ch tid (Some cb) = Inr s0"
      and "\<forall>j<length msgs. reader_Read ch j = Some (msgs ! j)"
      and "reader_Read ch (length msgs) = None"
  shows "\<exists>r log. reader_client_reader s0 = Some r
           \<and> reader_thread s0 = Some (Some log)
           \<and> log = concat (map (\<lambda>m. [RdRead r (Some m), invocation cv cb m]) msgs)
                    @ [RdRead r None, RdFinish r (reader_Finish ch)]
           \<and> filter is_callback log = map (invocation cv cb) msgs"
proof -
  let ?r = "ReceiveLocalSlamResults ch tid"
  let ?log = "deliveries cv ?r cb msgs @ [RdRead ?r None, RdFinish ?r (reader_Finish ch)]"
  from ctor_Inr(6) [OF assms(1) refl] RunLocalSlamResultReader_ends [OF assms(2,3)]
  have "reader_client_reader s0 = Some ?r" "reader_thread s0 = Some (Some ?log)"
    by simp_all
  moreover have "filter is_callback ?log = map (invocation cv cb) msgs"
    by (simp add: callbacks_deliveries)
  ultimately show ?thesis
    unfolding deliveries_def by blast
qed

theorem C5_one_callback_per_result_in_order_witness:
  "(\<exists>s0. TrajectoryBuilderStub_ctor example_conversions example_channel 7 (Some ''cb'') = Inr s0
        \<and> (\<exists>log. reader_thread s0 = Some (Some log)
              \<and> filter is_callback log =
                  [RdCallback ''cb'' 7 1000 11 62 None,
                   RdCallback ''cb'' 7 2000 21 72 (Some (NodeId 7 4)),
                   RdCallback ''cb'' 7 3000 31 82 None]
              \<and> last log = RdFinish 2 True))
   \<and> length example_inbound = 3
   \<and> reader_Read example_channel 0 = Some (example_inbound ! 0)
   \<and> reader_Read example_channel 1 = Some (example_inbound ! 1)
   \<and> reader_Read example_channel 2 = Some (example_inbound ! 2)
   \<and> reader_Read example_channel 3 = None"
proof -
  obtain s0 :: "(nat, nat, string) TrajectoryBuilderStub" where
    c: "TrajectoryBuilderStub_ctor example_conversions example_channel 7 (Some ''cb'') = Inr s0"
    by (simp add: TrajectoryBuilderStub_ctor_def example_channel_def)
  from C5_one_callback_per_result_in_order [OF c example_inbound_stream]
  obtain r log where l: "reader_client_reader s0 = Some r" "reader_thread s0 = Some (Some log)"
    "log = concat (map (\<lambda>m. [RdRead r (Some m), invocation example_conversions ''cb'' m])
             example_inbound) @ [RdRead r None, RdFinish r (reader_Finish example_channel)]"
    "filter is_callback log = map (invocation example_conversions ''cb'') example_inbound"
    by blast
  from c l(1) have r: "r = 2"
    by (auto simp: TrajectoryBuilderStub_ctor_def example_channel_def)
  have "map (invocation example_conversions ''cb'') example_inbound =
      [RdCallback ''cb'' 7 1000 11 62 None,
       RdCallback ''cb'' 7 2000 21 72 (Some (NodeId 7 4)),
       RdCallback ''cb'' 7 3000 31 82 None]"
    by (simp add: example_inbound_def example_message_def invocation_def example_conversions_def)
  moreover from l(3) r have "last log = RdFinish 2 True"
    by (simp add: example_channel_def)
  moreover have "length example_inbound = 3"
    "reader_Read example_channel 0 = Some (example_inbound ! 0)"
    "reader_Read example_channel 1 = Some (example_inbound ! 1)"
    "reader_Read example_channel 2 = Some (example_inbound ! 2)"
    "reader_Read example_channel 3 = None"
    by (simp_all add: example_channel_def example_inbound_def)
  ultimately show ?thesis using c l by auto
qed


text \<open>
  C7 says that a status of the inbound stream that is not OK is logged or observed.  The
  source calls \<^verbatim>\<open>client_reader->Finish()\<close> as a statement and drops the status it returns.
  On the example transport, with the status not OK, the reader does what it does with the
  status OK, the answer of the transport to \<^verbatim>\<open>Finish\<close> being the only difference, and
  the trace of the owning thread over the whole life of the object is the same.
\<close>

theorem C7_finish_status_dropped:
  "RunLocalSlamResultReader example_conversions
      (example_channel\<lparr> reader_Finish := False \<rparr>) 2 ''cb'' =
     Some (deliveries example_conversions 2 ''cb'' example_inbound
             @ [RdRead 2 None, RdFinish 2 False])
   \<and> RunLocalSlamResultReader example_conversions example_channel 2 ''cb'' =
     Some (deliveries example_conversions 2 ''cb'' example_inbound
             @ [RdRead 2 None, RdFinish 2 True])
   \<and> lifecycle example_conversions (example_channel\<lparr> reader_Finish := False \<rparr>) 7
        (Some ''cb'') example_calls = Inr example_life
   \<and> lifecycle example_conversions example_channel 7 (Some ''cb'') example_calls =
        Inr example_life"
proof -
  have "RunLocalSlamResultReader example_conversions
      (example_channel\<lparr> reader_Finish := False \<rparr>) 2 ''cb'' =
     Some (deliveries example_conversions 2 ''cb'' example_inbound
             @ [RdRead 2 None, RdFinish 2 False])"
    using RunLocalSlamResultReader_ends
      [where ch = "example_channel\<lparr> reader_Finish := False \<rparr>" and msgs = example_inbound
         and cv = example_conversions and r = 2 and cb = "''cb''"]
      example_inbound_stream
    by simp
  with example_reader_log example_lifecycle
    lifecycle_finish_irrelevant
      [where cv = example_conversions and ch = example_channel and b = False and tid = 7
         and cb = "Some ''cb''" and calls = example_calls]
  show ?thesis by simp
qed

text \<open>
  C7, as amended.  Whatever the status of the inbound stream is when it has ended (OK
  after a close by the remote, not OK after a fault of the transport), the reader does the
  same: it leaves the loop at the read that reports the end, calls \<^verbatim>\<open>Finish\<close> once, as
  its last step, and returns.  The status that \<^verbatim>\<open>Finish\<close> gives is dropped: a whole
  life of the object (construction, calls, destruction) has the same outcome on the owning
  thread for either status.
\<close>

theorem C7_stream_end_is_silent:
  assumes "\<forall>j<length msgs. reader_Read ch j = Some (msgs ! j)"
      and "reader_Read ch (length msgs) = None"
  shows "(\<exists>log. (\<forall>b. RunLocalSlamResultReader cv (ch\<lparr> reader_Finish := b \<rparr>) r cb =
                      Some (log @ [RdFinish r b]))
              \<and> (\<forall>e\<in>set log. \<not> is_reader_finish e)
              \<and> last log = RdRead r None)
       \<and> (\<forall>b tid cbo calls.
            lifecycle cv (ch\<lparr> reader_Finish := b \<rparr>) tid (cbo :: 'cb option) calls =
            lifecycle cv ch tid cbo calls)"
proof -
  let ?log = "deliveries cv r cb msgs @ [RdRead r None]"
  have "RunLocalSlamResultReader cv (ch\<lparr> reader_Finish := b \<rparr>) r cb =
          Some (?log @ [RdFinish r b])" for b
    using RunLocalSlamResultReader_ends
      [where ch = "ch\<lparr> reader_Finish := b \<rparr>" and msgs = msgs and cv = cv and r = r and cb = cb]
      assms
    by simp
  moreover have "\<forall>e\<in>set ?log. \<not> is_reader_finish e"
    by (auto dest: deliveries_no_finish)
  moreover have "last ?log = RdRead r None" by simp
  ultimately show ?thesis
    using lifecycle_finish_irrelevant by blast
qed


theorem C7_stream_end_is_silent_witness:
  "length example_inbound = 3
   \<and> reader_Read example_channel 0 = Some (example_inbound ! 0)
   \<and> reader_Read example_channel 1 = Some (example_inbound ! 1)
   \<and> reader_Read example_channel 2 = Some (example_inbound ! 2)
   \<and> reader_Read example_channel 3 = None
   \<and> (\<exists>log. RunLocalSlamResultReader example_conversions
                (example_channel\<lparr> reader_Finish := False \<rparr>) 2 ''cb'' =
                Some (log @ [RdFinish 2 False])
          \<and> RunLocalSlamResultReader example_conversions
                (example_channel\<lparr> reader_Finish := True \<rparr>) 2 ''cb'' =
                Some (log @ [RdFinish 2 True])
          \<and> last log = RdRead 2 None)
   \<and> lifecycle example_conversions (example_channel\<lparr> reader_Finish := False \<rparr>) 7
        (Some ''cb'') example_calls =
      lifecycle example_conversions example_channel 7 (Some ''cb'') example_calls"
proof -
  have "length example_inbound = 3"
    "reader_Read example_channel 0 = Some (example_inbound ! 0)"
    "reader_Read example_channel 1 = Some (example_inbound ! 1)"
    "reader_Read example_channel 2 = Some (example_inbound ! 2)"
    "reader_Read example_channel 3 = None"
    by (simp_all add: example_channel_def example_inbound_def)
  with C7_stream_end_is_silent
    [OF example_inbound_stream, of example_conversions 2 "''cb''"]
  show ?thesis by blast
qed

text \<open>
  C9.  On an object built without a callback and never given a sample, the destructor
  returns and adds nothing to the trace, which holds the making of the stub and nothing
  else: no join, no end-of-writes signal, no \<^verbatim>\<open>Finish\<close>.
\<close>

theorem C9_unused_stub_destroyed_quietly:
  assumes "TrajectoryBuilderStub_ctor cv ch tid None = Inr s0"
  shows "TrajectoryBuilderStub_dtor s0 = Inr (trace s0)
       \<and> trace s0 = [EvNewStub (Some (this_stub s0))]"
proof -
  from ctor_Inr(4) [OF assms, of Rangefinder] ctor_Inr(4) [OF assms, of Imu]
    ctor_Inr(4) [OF assms, of Odometry] ctor_Inr(4) [OF assms, of FixedFramePose]
  have "rangefinder_writer s0 = None" "imu_writer s0 = None" "odometry_writer s0 = None"
    "fixed_frame_writer s0 = None"
    by simp_all
  with ctor_Inr(5) [OF assms refl] show ?thesis
    by (simp add: TrajectoryBuilderStub_dtor_def finalize_writer_def)
qed

theorem C9_unused_stub_destroyed_quietly_witness:
  "TrajectoryBuilderStub_ctor example_conversions example_channel 7 None = Inr example_stub
   \<and> TrajectoryBuilderStub_dtor example_stub = Inr [EvNewStub (Some 1)]"
  using C9_unused_stub_destroyed_quietly [OF example_ctor] example_ctor
  by (simp add: example_stub_def)

text \<open>
  C3.  Take an object that construction returned, after any sequence of calls that
  returned, and let it have a reader thread.  Then a callback was given, and the thread is
  the run of the reader on the inbound session of the trajectory.  Up to destruction the
  trace holds no finalization and no join.  If the reader never returns, the destructor
  blocks in the join with the trace as it was: nothing is finalized.  If the reader
  returns, everything the destructor does comes after the join, first in what it adds to
  the trace; the rest are finalizations.
\<close>

theorem C3_join_before_finalize:
  assumes "TrajectoryBuilderStub_ctor cv ch tid cb = Inr s0"
      and "AddSensorData_seq cv calls s0 = Inr s"
      and "reader_thread s = Some th"
  shows "(\<exists>f. cb = Some f
            \<and> th = RunLocalSlamResultReader cv ch (ReceiveLocalSlamResults ch tid) f)
       \<and> (\<forall>e\<in>set (trace s). \<not> is_finalize e \<and> e \<noteq> EvThreadJoin)
       \<and> (th = None \<longrightarrow> TrajectoryBuilderStub_dtor s = Inl (Join_blocks (trace s)))
       \<and> (th \<noteq> None \<longrightarrow>
            (\<exists>rest. final_trace (TrajectoryBuilderStub_dtor s) = trace s @ EvThreadJoin # rest
               \<and> (\<forall>e\<in>set rest. is_finalize e)))"
proof -
  from seq_frame [OF assms(2)] assms(3) have th0: "reader_thread s0 = Some th" by simp
  with ctor_Inr(5) [OF assms(1)] obtain f where f: "cb = Some f" by (cases cb) auto
  from ctor_Inr(6) [OF assms(1) f] th0
  have th: "th = RunLocalSlamResultReader cv ch (ReceiveLocalSlamResults ch tid) f"
    and tr0: "trace s0 = [EvNewStub (Some (this_stub s0)),
                          EvReceiveLocalSlamResults tid (ReceiveLocalSlamResults ch tid),
                          EvThreadStart]"
    by simp_all
  from seq_trace [OF assms(2)] obtain ev where
    ev: "trace s = trace s0 @ ev" "\<forall>e\<in>set ev. event_kind e \<noteq> None \<and> \<not> is_finalize e"
    by blast
  have quiet: "\<forall>e\<in>set (trace s). \<not> is_finalize e \<and> e \<noteq> EvThreadJoin"
    using ev tr0 by auto
  have blocked: "TrajectoryBuilderStub_dtor s = Inl (Join_blocks (trace s))" if "th = None"
    using that assms(3) by (simp add: dtor_finalize_all)
  have joined: "\<exists>rest. final_trace (TrajectoryBuilderStub_dtor s) = trace s @ EvThreadJoin # rest
               \<and> (\<forall>e\<in>set rest. is_finalize e)" if "th \<noteq> None"
  proof -
    from that assms(3) have "reader_thread s \<noteq> Some None" by simp
    from dtor_trace [OF this] assms(3) show ?thesis by (simp add: after_join_def)
  qed
  from f th quiet blocked joined show ?thesis by blast
qed


theorem C3_join_before_finalize_witness:
  "(\<exists>s th. TrajectoryBuilderStub_ctor example_conversions example_channel 7 (Some ''cb'') =
              Inr example_stub_cb
        \<and> AddSensorData_seq example_conversions example_calls example_stub_cb = Inr s
        \<and> reader_thread s = Some th \<and> th \<noteq> None
        \<and> (\<exists>rest. final_trace (TrajectoryBuilderStub_dtor s) = trace s @ EvThreadJoin # rest
              \<and> (\<forall>e\<in>set (trace s). \<not> is_finalize e)))
   \<and> (\<exists>s0. TrajectoryBuilderStub_ctor example_conversions endless_channel 7 (Some ''cb'') = Inr s0
        \<and> AddSensorData_seq example_conversions [] s0 = Inr s0
        \<and> reader_thread s0 = Some None
        \<and> TrajectoryBuilderStub_dtor s0 = Inl (Join_blocks (trace s0)))"
proof -
  from example_run_cb obtain s where
    run: "AddSensorData_seq example_conversions example_calls example_stub_cb = Inr s"
    by blast
  from seq_frame [OF run] have th: "reader_thread s =
      Some (RunLocalSlamResultReader example_conversions example_channel 2 ''cb'')"
    by (simp add: example_stub_cb_def)
  from C3_join_before_finalize [OF example_ctor_cb run th] example_reader_returns
  have 1: "\<exists>rest. final_trace (TrajectoryBuilderStub_dtor s) = trace s @ EvThreadJoin # rest
              \<and> (\<forall>e\<in>set (trace s). \<not> is_finalize e)"
    by blast
  from endless_ctor obtain s0 :: "(nat, nat, string) TrajectoryBuilderStub" where
    c: "TrajectoryBuilderStub_ctor example_conversions endless_channel 7 (Some ''cb'') = Inr s0"
    and n: "reader_thread s0 = Some None"
    by blast
  have r0: "AddSensorData_seq example_conversions [] s0 = Inr s0" by simp
  from C3_join_before_finalize [OF c r0 n]
  have 2: "TrajectoryBuilderStub_dtor s0 = Inl (Join_blocks (trace s0))" by blast
  from example_ctor_cb run th example_reader_returns 1 c r0 n 2 show ?thesis by blast
qed

text \<open>
  C6.  Construction that returns has opened the inbound session and started the reader
  thread, in this order and right after making the stub, when a callback was given, and
  has done neither when none was given.  In the second case the whole trace of the object,
  up to the end of destruction after any sequence of calls, holds no opening of an
  inbound session, no start and no join of a thread.
\<close>

theorem C6_reader_started_iff_callback:
  assumes "TrajectoryBuilderStub_ctor cv ch tid cb = Inr s0"
  shows "(cb \<noteq> None \<longrightarrow>
            (\<exists>f r. cb = Some f \<and> r = ReceiveLocalSlamResults ch tid
               \<and> trace s0 = [EvNewStub (Some (this_stub s0)),
                              EvReceiveLocalSlamResults tid r, EvThreadStart]
               \<and> reader_client_reader s0 = Some r
               \<and> reader_thread s0 = Some (RunLocalSlamResultReader cv ch r f)))
       \<and> (cb = None \<longrightarrow>
            reader_client_reader s0 = None \<and> reader_thread s0 = None
            \<and> trace s0 = [EvNewStub (Some (this_stub s0))]
            \<and> (\<forall>calls s. AddSensorData_seq cv calls s0 = Inr s \<longrightarrow>
                  (\<forall>e\<in>set (final_trace (TrajectoryBuilderStub_dtor s)).
                      e \<noteq> EvThreadStart \<and> e \<noteq> EvThreadJoin
                      \<and> (\<forall>t r. e \<noteq> EvReceiveLocalSlamResults t r))))"
proof (intro conjI impI)
  assume "cb \<noteq> None"
  then obtain f where f: "cb = Some f" by auto
  from ctor_Inr(6) [OF assms f] f
  show "\<exists>f r. cb = Some f \<and> r = ReceiveLocalSlamResults ch tid
               \<and> trace s0 = [EvNewStub (Some (this_stub s0)),
                              EvReceiveLocalSlamResults tid r, EvThreadStart]
               \<and> reader_client_reader s0 = Some r
               \<and> reader_thread s0 = Some (RunLocalSlamResultReader cv ch r f)"
    by simp
next
  assume none: "cb = None"
  note c = ctor_Inr(5) [OF assms none]
  from c show "reader_client_reader s0 = None" "reader_thread s0 = None"
    "trace s0 = [EvNewStub (Some (this_stub s0))]"
    by simp_all
  show "\<forall>calls s. AddSensorData_seq cv calls s0 = Inr s \<longrightarrow>
          (\<forall>e\<in>set (final_trace (TrajectoryBuilderStub_dtor s)).
              e \<noteq> EvThreadStart \<and> e \<noteq> EvThreadJoin
              \<and> (\<forall>t r. e \<noteq> EvReceiveLocalSlamResults t r))"
  proof (intro allI impI)
    fix calls s
    assume run: "AddSensorData_seq cv calls s0 = Inr s"
    from seq_frame [OF run] c have th: "reader_thread s = None" by simp
    from seq_trace [OF run] obtain ev where
      ev: "trace s = trace s0 @ ev" "\<forall>e\<in>set ev. event_kind e \<noteq> None \<and> \<not> is_finalize e"
      by blast
    from th have "reader_thread s \<noteq> Some None" by simp
    from dtor_trace [OF this] th obtain rest where
      rest: "final_trace (TrajectoryBuilderStub_dtor s) = trace s @ rest"
        "\<forall>e\<in>set rest. is_finalize e"
      by (auto simp: after_join_def)
    from rest ev c
    show "\<forall>e\<in>set (final_trace (TrajectoryBuilderStub_dtor s)).
              e \<noteq> EvThreadStart \<and> e \<noteq> EvThreadJoin
              \<and> (\<forall>t r. e \<noteq> EvReceiveLocalSlamResults t r)"
      by auto
  qed
qed

theorem C6_reader_started_iff_callback_witness:
  "TrajectoryBuilderStub_ctor example_conversions example_channel 7 (Some ''cb'') =
     Inr example_stub_cb
   \<and> trace example_stub_cb = [EvNewStub (Some 1), EvReceiveLocalSlamResults 7 2, EvThreadStart]
   \<and> reader_thread example_stub_cb \<noteq> None
   \<and> TrajectoryBuilderStub_ctor example_conversions example_channel 7 None = Inr example_stub
   \<and> reader_thread example_stub = None
   \<and> AddSensorData_seq example_conversions example_calls example_stub = Inr example_stub_used
   \<and> EvThreadJoin \<notin> set (final_trace (TrajectoryBuilderStub_dtor example_stub_used))
   \<and> EvThreadStart \<notin> set (final_trace (TrajectoryBuilderStub_dtor example_stub_used))"
proof -
  have some: "Some ''cb'' \<noteq> None" by simp
  from C6_reader_started_iff_callback [OF example_ctor_cb] some
  have 1: "trace example_stub_cb =
      [EvNewStub (Some 1), EvReceiveLocalSlamResults 7 2, EvThreadStart]"
    "reader_thread example_stub_cb \<noteq> None"
    by (auto simp: example_channel_def example_stub_cb_def example_stub_def)
  from C6_reader_started_iff_callback [OF example_ctor] example_run
  have 2: "reader_thread example_stub = None"
    "EvThreadJoin \<notin> set (final_trace (TrajectoryBuilderStub_dtor example_stub_used))"
    "EvThreadStart \<notin> set (final_trace (TrajectoryBuilderStub_dtor example_stub_used))"
    by blast+
  from example_ctor_cb example_ctor example_run 1 2 show ?thesis by blast
qed

end
